theory Spec2Isabelle
  imports Complex_Main
begin

section \<open>JavaScript values used by the payment relay\<close>

text \<open>
  The relay decodes its request body with \<^verbatim>\<open>JSON.parse\<close> and coerces the
  \<^verbatim>\<open>amount\<close> member with \<^verbatim>\<open>Number(payload.amount || 0)\<close>. A decoded body is a
  value of \<open>json\<close>; a member that is absent reads as \<^verbatim>\<open>undefined\<close>, here \<open>None\<close>.
  An object is the list of its members, each name once.
  JSON numbers are IEEE doubles in the runtime; they are idealised as rationals, which
  keeps the sign and the zero test that the validation depends on.
\<close>

datatype json =
    JNull
  | JBool bool
  | JNum rat
  | JStr string
  | JArr "json list"
  | JObj "(string \<times> json) list"

text \<open>The result of \<^verbatim>\<open>Number(v)\<close>: a finite number, an infinity or \<^verbatim>\<open>NaN\<close>.\<close>

datatype jsnum = NaN | NegInf | Fin rat | PosInf

text \<open>\<^verbatim>\<open>payload.amount\<close>: reading a member of \<^verbatim>\<open>null\<close> throws a TypeError (\<open>Inl\<close>);
  an object yields the member or \<^verbatim>\<open>undefined\<close>; every other JSON value has no such
  member.\<close>

fun get_member :: "json \<Rightarrow> string \<Rightarrow> unit + json option" where
  "get_member JNull k = Inl ()"
| "get_member (JObj kvs) k = Inr (map_of kvs k)"
| "get_member v k = Inr None"

text \<open>JavaScript truthiness of a value that may be \<^verbatim>\<open>undefined\<close>.\<close>

fun truthy :: "json option \<Rightarrow> bool" where
  "truthy None = False"
| "truthy (Some JNull) = False"
| "truthy (Some (JBool b)) = b"
| "truthy (Some (JNum r)) = (r \<noteq> 0)"
| "truthy (Some (JStr s)) = (s \<noteq> [])"
| "truthy (Some (JArr xs)) = True"
| "truthy (Some (JObj kvs)) = True"

text \<open>\<^verbatim>\<open>x || d\<close> on values.\<close>

definition js_or :: "json option \<Rightarrow> json \<Rightarrow> json" where
  "js_or x d = (if truthy x then the x else d)"

text \<open>\<^verbatim>\<open>Number(v)\<close>. The conversion of a string, and of an array or object through its
  string form, is the runtime's StringToNumber; it is the parameter \<open>coerce\<close>.\<close>

fun js_Number :: "(json \<Rightarrow> jsnum) \<Rightarrow> json \<Rightarrow> jsnum" where
  "js_Number coerce JNull = Fin 0"
| "js_Number coerce (JBool b) = Fin (if b then 1 else 0)"
| "js_Number coerce (JNum r) = Fin r"
| "js_Number coerce v = coerce v"

text \<open>\<^verbatim>\<open>!amount\<close> and \<^verbatim>\<open>amount <= 0\<close> on a number.\<close>

fun num_falsy :: "jsnum \<Rightarrow> bool" where
  "num_falsy NaN = True"
| "num_falsy (Fin r) = (r = 0)"
| "num_falsy NegInf = False"
| "num_falsy PosInf = False"

fun num_le_zero :: "jsnum \<Rightarrow> bool" where
  "num_le_zero NaN = False"
| "num_le_zero NegInf = True"
| "num_le_zero (Fin r) = (r \<le> 0)"
| "num_le_zero PosInf = False"

section \<open>The payment relay\<close>

record request =
  req_method :: string
  req_url :: string
  req_body :: string

datatype body = NoBody | JsonBody json | TextBody string

record response =
  res_status :: nat
  res_headers :: "(string \<times> string) list"
  res_body :: body

text \<open>The argument of \<^verbatim>\<open>stripe.paymentIntents.create\<close>. The description is
  \<^verbatim>\<open>Payment for ${payload.fullName}\<close> when that member is truthy (\<open>Some\<close>) and
  \<^verbatim>\<open>Payment\<close> otherwise (\<open>None\<close>).\<close>

record intent_request =
  ir_amount :: jsnum
  ir_currency :: json
  ir_email :: json
  ir_fullName :: json
  ir_userId :: json
  ir_description :: "json option"

record payment_intent =
  pi_client_secret :: string
  pi_id :: string

text \<open>The external collaborators of a handler: \<^verbatim>\<open>JSON.parse\<close> (\<open>Inl\<close> is the message
  of the SyntaxError it throws), the string-to-number conversion, and the processor call
  (\<open>Inl\<close> is the \<^verbatim>\<open>message\<close> of the error it throws, which may be undefined).\<close>

record runtime =
  rt_parse :: "string \<Rightarrow> string + json"
  rt_coerce :: "json \<Rightarrow> jsnum"
  rt_create :: "intent_request \<Rightarrow> string option + payment_intent"

definition defaultHeaders :: "(string \<times> string) list" where
  "defaultHeaders =
     [(''Content-Type'', ''application/json''),
      (''Access-Control-Allow-Origin'', ''*''),
      (''Access-Control-Allow-Methods'', ''GET,POST,OPTIONS''),
      (''Access-Control-Allow-Headers'', ''Content-Type'')]"

definition null_read_message :: string where
  "null_read_message = ''Cannot read properties of null (reading 'amount')''"

definition member_or :: "json \<Rightarrow> string \<Rightarrow> json \<Rightarrow> json" where
  "member_or payload k d = (case get_member payload k of Inl u \<Rightarrow> d | Inr x \<Rightarrow> js_or x d)"

definition build_intent_request :: "json \<Rightarrow> jsnum \<Rightarrow> intent_request" where
  "build_intent_request payload amount =
     \<lparr> ir_amount = amount,
       ir_currency = member_or payload ''currency'' (JStr ''usd''),
       ir_email = member_or payload ''email'' (JStr ''''),
       ir_fullName = member_or payload ''fullName'' (JStr ''''),
       ir_userId = member_or payload ''userId'' (JStr ''''),
       ir_description =
         (case get_member payload ''fullName'' of
            Inl u \<Rightarrow> None
          | Inr x \<Rightarrow> (if truthy x then x else None)) \<rparr>"

text \<open>A handler returns its response together with the list of processor calls it made.\<close>

type_synonym outcome = "response \<times> intent_request list"

definition error_object :: "string \<Rightarrow> json" where
  "error_object m = JObj [(''error'', JStr m)]"

text \<open>The \<^verbatim>\<open>try\<close> block shared by both handlers, parameterised by the handler's
  \<^verbatim>\<open>catch\<close> clause, which maps the thrown error's message to the response.\<close>

definition on_end :: "runtime \<Rightarrow> (string option \<Rightarrow> response) \<Rightarrow> string \<Rightarrow> outcome" where
  "on_end rt catch b =
     (case rt_parse rt (if b = [] then ''{}'' else b) of
        Inl msg \<Rightarrow> (catch (Some msg), [])
      | Inr payload \<Rightarrow>
          (case get_member payload ''amount'' of
             Inl u \<Rightarrow> (catch (Some null_read_message), [])
           | Inr x \<Rightarrow>
               (let amount = js_Number (rt_coerce rt) (js_or x (JNum 0)) in
                if num_falsy amount \<or> num_le_zero amount then
                  (\<lparr> res_status = 400, res_headers = defaultHeaders,
                     res_body = JsonBody (error_object ''Invalid amount'') \<rparr>, [])
                else
                  (let r = build_intent_request payload amount in
                   case rt_create rt r of
                     Inl msg \<Rightarrow> (catch msg, [r])
                   | Inr p \<Rightarrow>
                       (\<lparr> res_status = 200, res_headers = defaultHeaders,
                          res_body = JsonBody (JObj [(''clientSecret'', JStr (pi_client_secret p)),
                                                     (''id'', JStr (pi_id p))]) \<rparr>, [r])))))"

subsection \<open>The serverless handler (api/create-payment-intent.js)\<close>

text \<open>\<^verbatim>\<open>process.env\<close>: the two variables the handler reads; an unset variable is \<open>None\<close>.\<close>

record environment =
  env_STRIPE_SECRET_KEY :: "string option"
  env_VITE_STRIPE_SECRET_KEY :: "string option"

definition str_truthy :: "string option \<Rightarrow> bool" where
  "str_truthy x = (case x of None \<Rightarrow> False | Some s \<Rightarrow> s \<noteq> [])"

definition stripeSecret :: "environment \<Rightarrow> string" where
  "stripeSecret env =
     (if str_truthy (env_STRIPE_SECRET_KEY env) then the (env_STRIPE_SECRET_KEY env)
      else if str_truthy (env_VITE_STRIPE_SECRET_KEY env) then the (env_VITE_STRIPE_SECRET_KEY env)
      else '''')"

definition api_catch :: "string option \<Rightarrow> response" where
  "api_catch msg =
     \<lparr> res_status = 500, res_headers = defaultHeaders,
       res_body = JsonBody (error_object (if str_truthy msg then the msg else ''Internal error'')) \<rparr>"

definition api_handler :: "environment \<Rightarrow> runtime \<Rightarrow> request \<Rightarrow> outcome" where
  "api_handler env rt req =
     (if req_method req = ''OPTIONS'' then
        (\<lparr> res_status = 204, res_headers = defaultHeaders, res_body = NoBody \<rparr>, [])
      else if req_method req \<noteq> ''POST'' then
        (\<lparr> res_status = 404, res_headers = defaultHeaders,
           res_body = JsonBody (error_object ''Not found'') \<rparr>, [])
      else if stripeSecret env = [] then
        (\<lparr> res_status = 500, res_headers = defaultHeaders,
           res_body = JsonBody (error_object ''Stripe secret key not configured on server'') \<rparr>, [])
      else on_end rt api_catch (req_body req))"

subsection \<open>The standalone server (server.cjs)\<close>

text \<open>\<^verbatim>\<open>JSON.stringify({ error: err.message })\<close> drops the member when the message is
  undefined.\<close>

definition server_catch :: "string option \<Rightarrow> response" where
  "server_catch msg =
     \<lparr> res_status = 500, res_headers = defaultHeaders,
       res_body = JsonBody (case msg of None \<Rightarrow> JObj [] | Some m \<Rightarrow> error_object m) \<rparr>"

definition server_handler :: "runtime \<Rightarrow> request \<Rightarrow> outcome" where
  "server_handler rt req =
     (if req_method req = ''OPTIONS'' then
        (\<lparr> res_status = 204, res_headers = defaultHeaders, res_body = NoBody \<rparr>, [])
      else if req_method req = ''POST'' \<and> req_url req = ''/create-payment-intent'' then
        on_end rt server_catch (req_body req)
      else if req_method req = ''GET'' \<and> req_url req = ''/health'' then
        (\<lparr> res_status = 200, res_headers = [(''Content-Type'', ''application/json'')],
           res_body = JsonBody (JObj [(''ok'', JBool True)]) \<rparr>, [])
      else
        (\<lparr> res_status = 404, res_headers = [], res_body = TextBody ''Not found'' \<rparr>, []))"

section \<open>The storefront's tables\<close>

text \<open>
  The storefront keeps its data in remote tables and reaches them through a query client.
  A table is the list of its rows. Row identifiers are UUID strings; the empty string
  stands for a null identifier, which is falsy in the source and matches no row. Numeric
  columns are integers (stock, quantity) or exact rationals (prices and totals, doubles
  in the runtime); a null text column is the empty string, which the source's
  \<^verbatim>\<open>x || ""\<close> identifies with it. Calls to the query client are taken to succeed, so a
  handler's own checks and early returns are the only failure paths of the model, apart
  from the order insertion, whose result the checkout tests. Referential actions of the
  database schema (cascading deletes) are not part of the repository and are not
  modelled.
\<close>

type_synonym ident = string

record variant =
  v_id :: ident
  v_product_id :: ident
  v_color :: string
  v_size :: string
  v_stock :: int
  v_img_url :: string

record product =
  p_id :: ident
  p_name :: string
  p_description :: string
  p_price :: rat
  p_category :: string
  p_stock :: int
  p_img_url :: string

record cart_row =
  cr_id :: ident
  cr_cart_id :: ident
  cr_product_id :: ident
  cr_product_variant_id :: ident
  cr_quantity :: int

record shipping =
  shipping_address_id :: "ident option"
  shipping_label :: "string option"
  shipping_full_name :: "string option"
  shipping_phone :: "string option"
  shipping_address_line :: "string option"
  shipping_city :: "string option"
  shipping_province :: "string option"
  shipping_postal_code :: "string option"

record order =
  o_id :: ident
  o_user_id :: ident
  o_total :: rat
  o_status :: string
  o_payment_status :: string
  o_payment_method :: string
  o_shipping :: shipping

record order_item =
  oi_order_id :: ident
  oi_product_id :: ident
  oi_product_variant_id :: ident
  oi_quantity :: int
  oi_price :: rat
  oi_name :: string
  oi_color :: string
  oi_size :: string
  oi_img_url :: string

record payment =
  pay_order_id :: ident
  pay_amount :: rat
  pay_method :: string
  pay_status :: string
  pay_transaction_id :: "string option"

record address =
  addr_id :: ident
  addr_label :: string
  addr_full_name :: string
  addr_phone :: string
  addr_address_line :: string
  addr_city :: string
  addr_province :: string
  addr_postal_code :: string

record db =
  product_variants :: "variant list"
  products :: "product list"
  orders :: "order list"
  order_items :: "order_item list"
  payments :: "payment list"
  cart_items :: "cart_row list"
  user_addresses :: "address list"

subsection \<open>Query helpers\<close>

text \<open>\<^verbatim>\<open>.single()\<close> yields the row when exactly one row matches and null otherwise.\<close>

definition single :: "'a list \<Rightarrow> 'a option" where
  "single xs = (case xs of [x] \<Rightarrow> Some x | _ \<Rightarrow> None)"

definition select_variant :: "db \<Rightarrow> ident \<Rightarrow> variant option" where
  "select_variant d i = single (filter (\<lambda>v. v_id v = i) (product_variants d))"

definition select_order :: "db \<Rightarrow> ident \<Rightarrow> order option" where
  "select_order d i = single (filter (\<lambda>r. o_id r = i) (orders d))"

definition select_address :: "db \<Rightarrow> ident \<Rightarrow> address option" where
  "select_address d i = single (filter (\<lambda>a. addr_id a = i) (user_addresses d))"

definition update_variant_stock :: "ident \<Rightarrow> int \<Rightarrow> db \<Rightarrow> db" where
  "update_variant_stock i n d =
     d\<lparr> product_variants :=
          map (\<lambda>v. if v_id v = i then v\<lparr> v_stock := n \<rparr> else v) (product_variants d) \<rparr>"

definition update_order_status :: "ident \<Rightarrow> string \<Rightarrow> db \<Rightarrow> db" where
  "update_order_status i s d =
     d\<lparr> orders := map (\<lambda>r. if o_id r = i then r\<lparr> o_status := s \<rparr> else r) (orders d) \<rparr>"

text \<open>\<^verbatim>\<open>x || d\<close> on a number: zero is falsy.\<close>

definition num_or :: "int \<Rightarrow> int \<Rightarrow> int" where
  "num_or x d = (if x = 0 then d else x)"

text \<open>\<^verbatim>\<open>Set.prototype.add\<close>: a set iterates in insertion order.\<close>

definition set_add :: "'a list \<Rightarrow> 'a \<Rightarrow> 'a list" where
  "set_add xs x = (if x \<in> set xs then xs else xs @ [x])"

text \<open>The sum of the stock of a product's variants, and the recomputation of the
  product's aggregate stock from it, for every collected product identifier.\<close>

definition variant_total :: "db \<Rightarrow> ident \<Rightarrow> int" where
  "variant_total d pid =
     foldl (\<lambda>s v. s + num_or (v_stock v) 0) 0
       (filter (\<lambda>v. v_product_id v = pid) (product_variants d))"

definition recompute_product :: "ident \<Rightarrow> db \<Rightarrow> db" where
  "recompute_product pid d =
     d\<lparr> products :=
          map (\<lambda>p. if p_id p = pid then p\<lparr> p_stock := variant_total d pid \<rparr> else p) (products d) \<rparr>"

fun recompute_all :: "ident list \<Rightarrow> db \<Rightarrow> db" where
  "recompute_all [] d = d"
| "recompute_all (pid # pids) d = recompute_all pids (recompute_product pid d)"

text \<open>\<^verbatim>\<open>String.prototype.toLowerCase\<close> on the ASCII letters.\<close>

definition lower_char :: "char \<Rightarrow> char" where
  "lower_char c =
     (case map_of (zip ''ABCDEFGHIJKLMNOPQRSTUVWXYZ'' ''abcdefghijklmnopqrstuvwxyz'') c of
        None \<Rightarrow> c
      | Some l \<Rightarrow> l)"

definition toLowerCase :: "string \<Rightarrow> string" where
  "toLowerCase s = map lower_char s"

text \<open>The messages the handlers show with \<^verbatim>\<open>alert\<close>. The stock message carries the
  item's label, the stock read and the quantity requested.\<close>

datatype alert =
    NoUser
  | CartEmpty
  | FailedToValidateStock
  | NotEnoughStock string int int
  | OrderPlaced
  | FailedToPlaceOrder
  | CannotBeCancelled
  | OrderCancelled
  | StatusUpdated
  | FailedToUpdateStatus
  | OrderDeleted
  | NeedsVariant
  | UploadFailed string string
  | ProductUpdated

section \<open>Order lifecycle\<close>

subsection \<open>Restoring stock\<close>

text \<open>
  The loop that gives an order's quantities back to the variants is written three times
  in the source: in the customer's \<^verbatim>\<open>cancelOrder\<close>, which skips an item without a
  variant identifier, and in the administrator's \<^verbatim>\<open>updateStatus\<close> and
  \<^verbatim>\<open>deleteOrder\<close>, which do not have that test. The flag \<open>g\<close> selects the test. The
  loop reads each variant again from the table before it writes.
\<close>

fun restore_loop :: "bool \<Rightarrow> order_item list \<Rightarrow> db \<Rightarrow> ident list \<Rightarrow> db \<times> ident list" where
  "restore_loop g [] d pids = (d, pids)"
| "restore_loop g (it # its) d pids =
     (if g \<and> oi_product_variant_id it = [] then restore_loop g its d pids
      else
        (case select_variant d (oi_product_variant_id it) of
           None \<Rightarrow> restore_loop g its d pids
         | Some variant \<Rightarrow>
             restore_loop g its
               (update_variant_stock (v_id variant)
                  (num_or (v_stock variant) 0 + num_or (oi_quantity it) 0) d)
               (set_add pids (v_product_id variant))))"

definition restore_stock :: "bool \<Rightarrow> ident \<Rightarrow> db \<Rightarrow> db" where
  "restore_stock g orderId d =
     (let items = filter (\<lambda>it. oi_order_id it = orderId) (order_items d);
          r = restore_loop g items d []
      in recompute_all (snd r) (fst r))"

subsection \<open>The customer's cancellation (customerhomepage.jsx)\<close>

text \<open>\<open>ok\<close> is the answer to the confirmation dialog. A handler returns the message it
  shows, if any, and the tables it leaves.\<close>

definition order_status_or_empty :: "db \<Rightarrow> ident \<Rightarrow> string" where
  "order_status_or_empty d orderId =
     (case select_order d orderId of None \<Rightarrow> '''' | Some ord \<Rightarrow> o_status ord)"

definition cancelOrder :: "bool \<Rightarrow> ident \<Rightarrow> db \<Rightarrow> alert option \<times> db" where
  "cancelOrder ok orderId d =
     (if orderId = [] then (None, d)
      else if \<not> ok then (None, d)
      else
        (let current = toLowerCase (order_status_or_empty d orderId) in
         if current = ''cancelled'' \<or> current = ''delivered'' \<or> current = ''shipping''
         then (Some CannotBeCancelled, d)
         else (Some OrderCancelled,
               restore_stock True orderId (update_order_status orderId ''cancelled'' d))))"

text \<open>The orders list offers the cancel button only when \<^verbatim>\<open>canCancel\<close> holds.\<close>

definition canCancel :: "string \<Rightarrow> bool" where
  "canCancel s =
     (let st = toLowerCase s in
      st \<noteq> ''shipping'' \<and> st \<noteq> ''delivered'' \<and> st \<noteq> ''cancelled'' \<and> st \<noteq> ''canceled'')"

subsection \<open>The administrator's status update and deletion (admin.jsx)\<close>

definition updateStatus :: "ident \<Rightarrow> string \<Rightarrow> db \<Rightarrow> alert \<times> db" where
  "updateStatus orderId newStatus d =
     (case select_order d orderId of
        None \<Rightarrow> (FailedToUpdateStatus, d)
      | Some currentOrder \<Rightarrow>
          (let prevStatus = toLowerCase (o_status currentOrder);
               targetStatus = toLowerCase newStatus;
               d1 = update_order_status orderId newStatus d
           in if targetStatus = ''cancelled''
                 \<and> (prevStatus = ''pending'' \<or> prevStatus = ''processing'')
              then (StatusUpdated, restore_stock False orderId d1)
              else (StatusUpdated, d1)))"

definition deleteOrder :: "ident \<Rightarrow> db \<Rightarrow> alert \<times> db" where
  "deleteOrder orderId d =
     (let order = select_order d orderId;
          st = toLowerCase (order_status_or_empty d orderId);
          d1 = (if order \<noteq> None \<and> (st = ''pending'' \<or> st = ''processing'')
                then restore_stock False orderId d else d)
      in (OrderDeleted, d1\<lparr> orders := filter (\<lambda>r. o_id r \<noteq> orderId) (orders d1) \<rparr>))"

text \<open>The administrator's buttons are disabled when \<^verbatim>\<open>isLocked\<close> holds; the cancel
  button calls \<^verbatim>\<open>updateStatus(order.id, "Cancelled")\<close>.\<close>

definition isLocked :: "string \<Rightarrow> bool" where
  "isLocked s = (let st = toLowerCase s in st = ''delivered'' \<or> st = ''cancelled'')"

section \<open>Checkout (customerhomepage.jsx)\<close>

text \<open>A line of the cart as the page holds it: the row of \<^verbatim>\<open>cart_items\<close> joined with
  its product and its variant, as read when the cart was last loaded.\<close>

record cart_item =
  ci_product_id :: ident
  ci_product_variant_id :: ident
  ci_quantity :: int
  ci_products :: "product option"
  ci_product_variants :: "variant option"

record payment_details =
  pd_id :: string
  pd_status :: string

record profile_address =
  pa_full_name :: string
  pa_phone :: string
  pa_address_line :: string

record checkout_options =
  opt_shipping_address_id :: ident
  opt_profile_address :: "profile_address option"
  opt_payment_method :: string
  opt_paymentDetails :: "payment_details option"

text \<open>
  The runtime's arithmetic on numbers. A number of the runtime is an IEEE double; the
  model writes it as the rational it denotes. The sum and the product of two doubles
  are rounded, so they are not the sum and the product of the rationals: the two
  operations are parameters, and a statement about a total holds for every rounding.
\<close>

record number_ops =
  num_add :: "rat \<Rightarrow> rat \<Rightarrow> rat"
  num_mul :: "rat \<Rightarrow> rat \<Rightarrow> rat"

text \<open>What \<^verbatim>\<open>placeOrder\<close> reads of the page: the signed-in user's identifier, the
  cart lines, the cart's identifier, and the arithmetic of the runtime it runs in.\<close>

record client =
  cl_user :: "ident option"
  cl_cartItems :: "cart_item list"
  cl_cartId :: ident
  cl_numbers :: number_ops

text \<open>\<^verbatim>\<open>ci.products?.name || "an item"\<close>.\<close>

definition item_label :: "cart_item \<Rightarrow> string" where
  "item_label ci =
     (case ci_products ci of
        None \<Rightarrow> ''an item''
      | Some p \<Rightarrow> (if p_name p = [] then ''an item'' else p_name p))"

text \<open>Step 1: every line's variant is read from the table and compared with the
  quantity asked for; the first line that fails ends the checkout.\<close>

fun check_stock :: "db \<Rightarrow> cart_item list \<Rightarrow> alert option" where
  "check_stock d [] = None"
| "check_stock d (ci # rest) =
     (case select_variant d (ci_product_variant_id ci) of
        None \<Rightarrow> Some FailedToValidateStock
      | Some variant \<Rightarrow>
          (if num_or (v_stock variant) 0 < num_or (ci_quantity ci) 0
           then Some (NotEnoughStock (item_label ci) (v_stock variant) (ci_quantity ci))
           else check_stock d rest))"

text \<open>Step 2: each line's variant is read again and its stock lowered, not below zero.\<close>

fun deduct_loop :: "cart_item list \<Rightarrow> db \<Rightarrow> ident list \<Rightarrow> db \<times> ident list" where
  "deduct_loop [] d pids = (d, pids)"
| "deduct_loop (ci # rest) d pids =
     (case select_variant d (ci_product_variant_id ci) of
        None \<Rightarrow> deduct_loop rest d pids
      | Some variant \<Rightarrow>
          deduct_loop rest
            (update_variant_stock (v_id variant)
               (max 0 (num_or (v_stock variant) 0 - num_or (ci_quantity ci) 0)) d)
            (set_add pids (v_product_id variant)))"

text \<open>Step 3: \<^verbatim>\<open>Number(it.products?.price || 0) * (it.quantity || 1)\<close>, added up from
  zero in the cart's order. The price is read from the product joined to the cart line
  in the page's state; the products table is not read.\<close>

definition line_price :: "cart_item \<Rightarrow> rat" where
  "line_price ci = (case ci_products ci of None \<Rightarrow> 0 | Some p \<Rightarrow> p_price p)"

definition order_total :: "number_ops \<Rightarrow> cart_item list \<Rightarrow> rat" where
  "order_total ar rest =
     foldl (\<lambda>s it. num_add ar s (num_mul ar (line_price it) (of_int (num_or (ci_quantity it) 1))))
       0 rest"

definition empty_shipping :: shipping where
  "empty_shipping =
     \<lparr> shipping_address_id = None, shipping_label = None, shipping_full_name = None,
       shipping_phone = None, shipping_address_line = None, shipping_city = None,
       shipping_province = None, shipping_postal_code = None \<rparr>"

definition resolve_shipping :: "db \<Rightarrow> checkout_options \<Rightarrow> shipping" where
  "resolve_shipping d opts =
     (if opt_shipping_address_id opts \<noteq> [] then
        (case select_address d (opt_shipping_address_id opts) of
           None \<Rightarrow> empty_shipping
         | Some addr \<Rightarrow>
             \<lparr> shipping_address_id = Some (addr_id addr),
               shipping_label = Some (addr_label addr),
               shipping_full_name = Some (addr_full_name addr),
               shipping_phone = Some (addr_phone addr),
               shipping_address_line = Some (addr_address_line addr),
               shipping_city = Some (addr_city addr),
               shipping_province = Some (addr_province addr),
               shipping_postal_code = Some (addr_postal_code addr) \<rparr>)
      else
        (case opt_profile_address opts of
           None \<Rightarrow> empty_shipping
         | Some pa \<Rightarrow>
             empty_shipping
               \<lparr> shipping_full_name := Some (pa_full_name pa),
                 shipping_phone := Some (pa_phone pa),
                 shipping_address_line := Some (pa_address_line pa) \<rparr>))"

text \<open>\<^verbatim>\<open>paymentDetails && paymentDetails.status === "succeeded" ? "paid" : "pending"\<close>
  and \<^verbatim>\<open>paymentDetails?.id || null\<close>.\<close>

definition payment_status_of :: "payment_details option \<Rightarrow> string" where
  "payment_status_of pd =
     (case pd of
        None \<Rightarrow> ''pending''
      | Some x \<Rightarrow> (if pd_status x = ''succeeded'' then ''paid'' else ''pending''))"

definition transaction_id_of :: "payment_details option \<Rightarrow> string option" where
  "transaction_id_of pd =
     (case pd of
        None \<Rightarrow> None
      | Some x \<Rightarrow> (if pd_id x = [] then None else Some (pd_id x)))"

definition str_or :: "string \<Rightarrow> string \<Rightarrow> string" where
  "str_or s d = (if s = [] then d else s)"

definition item_payload :: "ident \<Rightarrow> cart_item \<Rightarrow> order_item" where
  "item_payload orderId ci =
     \<lparr> oi_order_id = orderId,
       oi_product_id = ci_product_id ci,
       oi_product_variant_id = ci_product_variant_id ci,
       oi_quantity = ci_quantity ci,
       oi_price = line_price ci,
       oi_name = (case ci_products ci of None \<Rightarrow> '''' | Some p \<Rightarrow> p_name p),
       oi_color = (case ci_product_variants ci of None \<Rightarrow> '''' | Some v \<Rightarrow> v_color v),
       oi_size = (case ci_product_variants ci of None \<Rightarrow> '''' | Some v \<Rightarrow> v_size v),
       oi_img_url =
         str_or (case ci_product_variants ci of None \<Rightarrow> '''' | Some v \<Rightarrow> v_img_url v)
           (str_or (case ci_products ci of None \<Rightarrow> '''' | Some p \<Rightarrow> p_img_url p)
              ''https://via.placeholder.com/100'') \<rparr>"

text \<open>
  \<^verbatim>\<open>placeOrder\<close>. \<open>inserted\<close> is the identifier the database gives the new order row,
  or \<open>None\<close> when the insertion returns no row, in which case the handler throws after
  the stock has been lowered.
\<close>

definition placeOrder :: "client \<Rightarrow> checkout_options \<Rightarrow> ident option \<Rightarrow> db \<Rightarrow> alert \<times> db" where
  "placeOrder cl opts inserted d =
     (case cl_user cl of
        None \<Rightarrow> (NoUser, d)
      | Some uid \<Rightarrow>
          (if cl_cartItems cl = [] then (CartEmpty, d)
           else
             (case check_stock d (cl_cartItems cl) of
                Some a \<Rightarrow> (a, d)
              | None \<Rightarrow>
                  (let r = deduct_loop (cl_cartItems cl) d [];
                       d2 = recompute_all (snd r) (fst r);
                       total = order_total (cl_numbers cl) (cl_cartItems cl);
                       shippingSnapshot = resolve_shipping d2 opts
                   in case inserted of
                        None \<Rightarrow> (FailedToPlaceOrder, d2)
                      | Some oid \<Rightarrow>
                          (OrderPlaced,
                           d2\<lparr> orders := orders d2 @
                                  [\<lparr> o_id = oid, o_user_id = uid, o_total = total,
                                     o_status = ''processing'',
                                     o_payment_status = payment_status_of (opt_paymentDetails opts),
                                     o_payment_method = opt_payment_method opts,
                                     o_shipping = shippingSnapshot \<rparr>],
                               order_items := order_items d2 @
                                  map (item_payload oid) (cl_cartItems cl),
                               payments := payments d2 @
                                  [\<lparr> pay_order_id = oid, pay_amount = total,
                                     pay_method = opt_payment_method opts,
                                     pay_status = payment_status_of (opt_paymentDetails opts),
                                     pay_transaction_id = transaction_id_of (opt_paymentDetails opts) \<rparr>],
                               cart_items :=
                                  filter (\<lambda>c. cr_cart_id c \<noteq> cl_cartId cl) (cart_items d2) \<rparr>)))))"

section \<open>Product administration (admin.jsx)\<close>

text \<open>
  A variant as the edit form holds it: its row, with an empty identifier when the variant
  is new, and the name of a newly chosen image file, if any. \<open>upload\<close> stores a file and
  yields its public address, or \<open>None\<close> when the upload fails; \<open>fresh\<close> gives the
  identifiers the database assigns to inserted variants.
\<close>

record variant_form =
  vf_row :: variant
  vf_imgFile :: "string option"

record product_form =
  pf_row :: product
  pf_variants :: "variant_form list"

record edit_state =
  es_db :: db
  es_variantsToInsert :: "variant list"
  es_existingVariantIds :: "ident list"
  es_urls :: "string list"

fun save_variants ::
  "(string \<Rightarrow> string option) \<Rightarrow> ident \<Rightarrow> variant_form list \<Rightarrow> edit_state \<Rightarrow> alert option \<times> edit_state" where
  "save_variants upload productId [] s = (None, s)"
| "save_variants upload productId (vf # vfs) s =
     (case (case vf_imgFile vf of
              None \<Rightarrow> Some (v_img_url (vf_row vf))
            | Some file \<Rightarrow> upload file) of
        None \<Rightarrow> (Some (UploadFailed (v_color (vf_row vf)) (v_size (vf_row vf))), s)
      | Some finalUrl \<Rightarrow>
          (let variantPayload = (vf_row vf)\<lparr> v_product_id := productId, v_img_url := finalUrl \<rparr> in
           if v_id (vf_row vf) \<noteq> [] then
             save_variants upload productId vfs
               (s\<lparr> es_db := (es_db s)\<lparr> product_variants :=
                       map (\<lambda>v. if v_id v = v_id (vf_row vf) then variantPayload else v)
                         (product_variants (es_db s)) \<rparr>,
                   es_existingVariantIds := es_existingVariantIds s @ [v_id (vf_row vf)],
                   es_urls := es_urls s @ [finalUrl] \<rparr>)
           else
             save_variants upload productId vfs
               (s\<lparr> es_variantsToInsert := es_variantsToInsert s @ [variantPayload],
                   es_urls := es_urls s @ [finalUrl] \<rparr>)))"

definition first_or_empty :: "string list \<Rightarrow> string" where
  "first_or_empty xs = (case xs of [] \<Rightarrow> '''' | x # _ \<Rightarrow> x)"

text \<open>An upload that fails ends the handler after the variants before it have been
  written.\<close>

definition handleEditSave ::
  "(string \<Rightarrow> string option) \<Rightarrow> (nat \<Rightarrow> ident) \<Rightarrow> product_form \<Rightarrow> db \<Rightarrow> alert \<times> db" where
  "handleEditSave upload fresh editingProduct d =
     (if pf_variants editingProduct = [] then (NeedsVariant, d)
      else
        (let productId = p_id (pf_row editingProduct);
             r = save_variants upload productId (pf_variants editingProduct)
                   \<lparr> es_db = d, es_variantsToInsert = [], es_existingVariantIds = [], es_urls = [] \<rparr>;
             s = snd r
         in case fst r of
           Some a \<Rightarrow> (a, es_db s)
         | None \<Rightarrow>
             (let mainImgUrl =
                    str_or (first_or_empty (es_urls s))
                      (str_or (first_or_empty (map v_img_url (es_variantsToInsert s))) '''');
                  d1 = (es_db s)\<lparr> products :=
                         map (\<lambda>p. if p_id p = productId
                                   then (pf_row editingProduct)\<lparr> p_img_url := mainImgUrl \<rparr> else p)
                           (products (es_db s)) \<rparr>;
                  idsToDelete =
                    filter (\<lambda>i. i \<notin> set (es_existingVariantIds s))
                      (map v_id (filter (\<lambda>v. v_product_id v = productId) (product_variants d1)));
                  d2 = d1\<lparr> product_variants :=
                         filter (\<lambda>v. v_id v \<notin> set idsToDelete) (product_variants d1) \<rparr>;
                  d3 = d2\<lparr> product_variants := product_variants d2 @
                         map (\<lambda>(k, v). v\<lparr> v_id := fresh k \<rparr>)
                           (zip [0 ..< length (es_variantsToInsert s)] (es_variantsToInsert s)) \<rparr>
              in (ProductUpdated, recompute_product productId d3))))"

text \<open>\<^verbatim>\<open>handleDeleteProduct\<close>, once confirmed, deletes the product's row.\<close>

definition handleDeleteProduct :: "bool \<Rightarrow> ident \<Rightarrow> db \<Rightarrow> db" where
  "handleDeleteProduct confirmed productId d =
     (if \<not> confirmed then d
      else d\<lparr> products := filter (\<lambda>p. p_id p \<noteq> productId) (products d) \<rparr>)"

section \<open>Notions used to state the properties\<close>

text \<open>The quantity an order's items give back to the variant \<open>vid\<close>; with the
  customer's test (\<open>g\<close>), items without a variant identifier give nothing back.\<close>

definition restored_qty :: "bool \<Rightarrow> order_item list \<Rightarrow> ident \<Rightarrow> int" where
  "restored_qty g its vid =
     sum_list (map oi_quantity
       (filter (\<lambda>it. oi_product_variant_id it = vid \<and> \<not> (g \<and> vid = [])) its))"

definition items_of :: "db \<Rightarrow> ident \<Rightarrow> order_item list" where
  "items_of d orderId = filter (\<lambda>it. oi_order_id it = orderId) (order_items d)"

text \<open>A stock lowered by each of the quantities in turn, never below zero, and the
  quantities the cart asks of the variant \<open>vid\<close>, in the cart's order.\<close>

definition deducted :: "int \<Rightarrow> int list \<Rightarrow> int" where
  "deducted s qs = foldl (\<lambda>a q. max 0 (a - q)) s qs"

definition line_quantities :: "cart_item list \<Rightarrow> ident \<Rightarrow> int list" where
  "line_quantities cart vid =
     map ci_quantity (filter (\<lambda>ci. ci_product_variant_id ci = vid) cart)"

text \<open>The aggregate stock of the product \<open>pid\<close> is the sum of its variants' stock.\<close>

definition aggregate_ok :: "db \<Rightarrow> ident \<Rightarrow> bool" where
  "aggregate_ok d pid =
     (\<forall>p \<in> set (products d). p_id p = pid \<longrightarrow>
        p_stock p = sum_list (map v_stock (filter (\<lambda>v. v_product_id v = pid) (product_variants d))))"

text \<open>A cart line asks for more than the table holds of its variant.\<close>

definition deficient :: "db \<Rightarrow> cart_item \<Rightarrow> bool" where
  "deficient d ci =
     (case select_variant d (ci_product_variant_id ci) of
        None \<Rightarrow> False
      | Some v \<Rightarrow> v_stock v < ci_quantity ci)"

definition stock_read :: "db \<Rightarrow> cart_item \<Rightarrow> int" where
  "stock_read d ci =
     (case select_variant d (ci_product_variant_id ci) of None \<Rightarrow> 0 | Some v \<Rightarrow> v_stock v)"

text \<open>Row by row, the variants of \<open>d'\<close> are those of \<open>d\<close> with a stock that is not
  lower.\<close>

definition stock_not_lower :: "db \<Rightarrow> db \<Rightarrow> bool" where
  "stock_not_lower d d' =
     list_all2 (\<lambda>v v'. v_id v' = v_id v \<and> v_stock v \<le> v_stock v')
       (product_variants d) (product_variants d')"

definition variant_ids_distinct :: "db \<Rightarrow> bool" where
  "variant_ids_distinct d = distinct (map v_id (product_variants d))"

text \<open>The tables after the second step of the checkout: stock lowered for every cart
  line, then the aggregate stock of the products concerned recomputed.\<close>

definition after_deduction :: "cart_item list \<Rightarrow> db \<Rightarrow> db" where
  "after_deduction cart d =
     recompute_all (snd (deduct_loop cart d [])) (fst (deduct_loop cart d []))"

text \<open>The sum of the stock of the variants of the product \<open>pid\<close>, and the products that
  own the variants named by the identifiers \<open>vids\<close>.\<close>

definition summed_stock :: "db \<Rightarrow> ident \<Rightarrow> int" where
  "summed_stock d pid =
     sum_list (map v_stock (filter (\<lambda>v. v_product_id v = pid) (product_variants d)))"

definition owners_of :: "db \<Rightarrow> ident list \<Rightarrow> ident list" where
  "owners_of d vids =
     map v_product_id (filter (\<lambda>v. v_id v \<in> set vids) (product_variants d))"

subsection \<open>Example collaborators\<close>

text \<open>A runtime whose \<^verbatim>\<open>JSON.parse\<close> agrees with the real one on the bodies used in
  the examples below, and two environments, without and with a processor credential.\<close>

definition demo_parse :: "string \<Rightarrow> string + json" where
  \<open>demo_parse s =
     (if s = ''{}'' then Inr (JObj [])
      else if s = ''{"amount":0}'' then Inr (JObj [(''amount'', JNum 0)])
      else if s = ''{"amount":-5}'' then Inr (JObj [(''amount'', JNum (-5))])
      else if s = ''{"amount":"-Infinity"}'' then Inr (JObj [(''amount'', JStr ''-Infinity'')])
      else if s = ''null'' then Inr JNull
      else Inl ''Unexpected token'')\<close>

definition demo_runtime :: runtime where
  "demo_runtime = \<lparr> rt_parse = demo_parse, rt_coerce = (\<lambda>v. if v = JStr ''-Infinity'' then NegInf else NaN),
      rt_create = (\<lambda>r. Inr \<lparr> pi_client_secret = ''cs_test'', pi_id = ''pi_test'' \<rparr>) \<rparr>"

definition no_credential :: environment where
  "no_credential = \<lparr> env_STRIPE_SECRET_KEY = None, env_VITE_STRIPE_SECRET_KEY = None \<rparr>"

definition test_credential :: environment where
  "test_credential = \<lparr> env_STRIPE_SECRET_KEY = Some ''sk_test'', env_VITE_STRIPE_SECRET_KEY = None \<rparr>"

definition post_intent :: "string \<Rightarrow> request" where
  "post_intent b = \<lparr> req_method = ''POST'', req_url = ''/create-payment-intent'', req_body = b \<rparr>"

definition invalid_amount_response :: response where
  "invalid_amount_response =
     \<lparr> res_status = 400, res_headers = defaultHeaders,
       res_body = JsonBody (error_object ''Invalid amount'') \<rparr>"

definition credential_missing_response :: response where
  "credential_missing_response =
     \<lparr> res_status = 500, res_headers = defaultHeaders,
       res_body = JsonBody (error_object ''Stripe secret key not configured on server'') \<rparr>"

subsection \<open>Example tables\<close>

text \<open>One product with one variant holding three pieces, and one order, in the given
  status, for two pieces of that variant.\<close>

definition demo_variant :: variant where
  "demo_variant =
     \<lparr> v_id = ''v1'', v_product_id = ''p1'', v_color = ''Black'', v_size = ''M'',
       v_stock = 3, v_img_url = ''https://img/v1.png'' \<rparr>"

definition demo_product :: product where
  "demo_product =
     \<lparr> p_id = ''p1'', p_name = ''Shirt'', p_description = ''A shirt'', p_price = 10,
       p_category = ''latest'', p_stock = 3, p_img_url = ''https://img/p1.png'' \<rparr>"

definition demo_order :: "string \<Rightarrow> order" where
  "demo_order st =
     \<lparr> o_id = ''o1'', o_user_id = ''u1'', o_total = 20, o_status = st,
       o_payment_status = ''pending'', o_payment_method = ''cod'',
       o_shipping = empty_shipping \<rparr>"

definition demo_order_item :: order_item where
  "demo_order_item =
     \<lparr> oi_order_id = ''o1'', oi_product_id = ''p1'', oi_product_variant_id = ''v1'',
       oi_quantity = 2, oi_price = 10, oi_name = ''Shirt'', oi_color = ''Black'',
       oi_size = ''M'', oi_img_url = ''https://img/v1.png'' \<rparr>"

definition demo_db :: "string \<Rightarrow> db" where
  "demo_db st =
     \<lparr> product_variants = [demo_variant], products = [demo_product],
       orders = [demo_order st], order_items = [demo_order_item], payments = [],
       cart_items = [], user_addresses = [] \<rparr>"

text \<open>A catalogue without orders, and a cart with one line for two pieces of the
  variant.\<close>

definition shop_db :: db where
  "shop_db =
     \<lparr> product_variants = [demo_variant], products = [demo_product],
       orders = [], order_items = [], payments = [],
       cart_items = [\<lparr> cr_id = ''c1'', cr_cart_id = ''cart1'', cr_product_id = ''p1'',
                       cr_product_variant_id = ''v1'', cr_quantity = 2 \<rparr>],
       user_addresses = [] \<rparr>"

text \<open>Arithmetic without rounding, which is the runtime's on the small whole numbers of
  the examples.\<close>

definition exact_numbers :: number_ops where
  "exact_numbers = \<lparr> num_add = (+), num_mul = (*) \<rparr>"

definition demo_line :: "int \<Rightarrow> cart_item" where
  "demo_line q =
     \<lparr> ci_product_id = ''p1'', ci_product_variant_id = ''v1'', ci_quantity = q,
       ci_products = Some demo_product, ci_product_variants = Some demo_variant \<rparr>"

definition demo_client :: "int \<Rightarrow> client" where
  "demo_client q =
     \<lparr> cl_user = Some ''u1'', cl_cartItems = [demo_line q], cl_cartId = ''cart1'',
       cl_numbers = exact_numbers \<rparr>"

definition cod_options :: checkout_options where
  "cod_options =
     \<lparr> opt_shipping_address_id = '''', opt_profile_address = None,
       opt_payment_method = ''cod'', opt_paymentDetails = None \<rparr>"

text \<open>A checkout paid by card, with the processor's confirmation.\<close>

definition card_options :: checkout_options where
  "card_options =
     \<lparr> opt_shipping_address_id = '''', opt_profile_address = None,
       opt_payment_method = ''card'',
       opt_paymentDetails = Some \<lparr> pd_id = ''pi_1'', pd_status = ''succeeded'' \<rparr> \<rparr>"




definition repriced_db :: db where
  "repriced_db = shop_db\<lparr> products := [demo_product\<lparr> p_price := 12 \<rparr>] \<rparr>"

section \<open>Properties of the payment relay\<close>

subsection \<open>Routing\<close>

lemma options_preflight:
  assumes "req_method req = ''OPTIONS''"
  shows "server_handler rt req = (\<lparr> res_status = 204, res_headers = defaultHeaders, res_body = NoBody \<rparr>, [])"
    and "api_handler env rt req = (\<lparr> res_status = 204, res_headers = defaultHeaders, res_body = NoBody \<rparr>, [])"
  using assms by (simp_all add: server_handler_def api_handler_def)

lemma api_not_found:
  assumes "req_method req \<noteq> ''OPTIONS''" and "req_method req \<noteq> ''POST''"
  shows "api_handler env rt req =
           (\<lparr> res_status = 404, res_headers = defaultHeaders,
              res_body = JsonBody (error_object ''Not found'') \<rparr>, [])"
  using assms by (simp add: api_handler_def)

lemma server_not_found:
  assumes "req_method req \<noteq> ''OPTIONS''"
      and "\<not> (req_method req = ''POST'' \<and> req_url req = ''/create-payment-intent'')"
      and "\<not> (req_method req = ''GET'' \<and> req_url req = ''/health'')"
  shows "server_handler rt req =
           (\<lparr> res_status = 404, res_headers = [], res_body = TextBody ''Not found'' \<rparr>, [])"
  using assms by (auto simp add: server_handler_def)

text \<open>
  Claim C9, as stated, fails. The serverless handler routes on the method alone: a
  \<^verbatim>\<open>POST\<close> to another path than \<^verbatim>\<open>/create-payment-intent\<close> is validated like any
  other and answered 400 here, not 404. The standalone server answers an unknown route,
  here \<^verbatim>\<open>GET /orders\<close>, 404 with no headers and the plain text \<^verbatim>\<open>Not found\<close>, which
  is not the JSON body \<^verbatim>\<open>{"error":"Not found"}\<close>.
\<close>

theorem unknown_route_answers:
  "fst (api_handler test_credential demo_runtime
          \<lparr> req_method = ''POST'', req_url = ''/orders'', req_body = '''' \<rparr>)
     = invalid_amount_response
   \<and> server_handler demo_runtime \<lparr> req_method = ''GET'', req_url = ''/orders'', req_body = '''' \<rparr>
     = (\<lparr> res_status = 404, res_headers = [], res_body = TextBody ''Not found'' \<rparr>, [])
   \<and> TextBody ''Not found'' \<noteq> JsonBody (error_object ''Not found'')"
  by (simp add: server_handler_def api_handler_def on_end_def stripeSecret_def str_truthy_def
        test_credential_def demo_runtime_def demo_parse_def js_or_def invalid_amount_response_def)

text \<open>
  Claim C9, amended. Both handlers answer every \<^verbatim>\<open>OPTIONS\<close> request 204 with the
  permissive headers and no body. The serverless handler answers every request whose
  method is neither \<^verbatim>\<open>OPTIONS\<close> nor \<^verbatim>\<open>POST\<close> 404 with the JSON body
  \<^verbatim>\<open>{"error":"Not found"}\<close>. The standalone server answers every request that is none of
  \<^verbatim>\<open>OPTIONS\<close>, \<^verbatim>\<open>POST /create-payment-intent\<close> and \<^verbatim>\<open>GET /health\<close> with the status
  404. No processor call is made in any of these cases.
\<close>

theorem preflight_and_unknown_routes:
  "(req_method req = ''OPTIONS'' \<longrightarrow>
      server_handler rt req
        = (\<lparr> res_status = 204, res_headers = defaultHeaders, res_body = NoBody \<rparr>, [])
      \<and> api_handler env rt req
        = (\<lparr> res_status = 204, res_headers = defaultHeaders, res_body = NoBody \<rparr>, []))
   \<and> (req_method req \<noteq> ''OPTIONS'' \<and> req_method req \<noteq> ''POST'' \<longrightarrow>
      api_handler env rt req
        = (\<lparr> res_status = 404, res_headers = defaultHeaders,
             res_body = JsonBody (error_object ''Not found'') \<rparr>, []))
   \<and> (req_method req \<noteq> ''OPTIONS''
        \<and> \<not> (req_method req = ''POST'' \<and> req_url req = ''/create-payment-intent'')
        \<and> \<not> (req_method req = ''GET'' \<and> req_url req = ''/health'') \<longrightarrow>
      res_status (fst (server_handler rt req)) = 404 \<and> snd (server_handler rt req) = [])"
  using options_preflight(1) [where req = req and rt = rt]
        options_preflight(2) [where req = req and rt = rt and env = env]
        api_not_found [where req = req and rt = rt and env = env]
        server_not_found [where req = req and rt = rt]
  by auto

text \<open>The amended claim C9 at a pre-flight request and at \<^verbatim>\<open>GET /orders\<close>.\<close>

theorem preflight_and_unknown_routes_witness:
  "server_handler demo_runtime \<lparr> req_method = ''OPTIONS'', req_url = ''/create-payment-intent'', req_body = '''' \<rparr>
     = (\<lparr> res_status = 204, res_headers = defaultHeaders, res_body = NoBody \<rparr>, [])
   \<and> api_handler no_credential demo_runtime \<lparr> req_method = ''OPTIONS'', req_url = ''/create-payment-intent'', req_body = '''' \<rparr>
     = (\<lparr> res_status = 204, res_headers = defaultHeaders, res_body = NoBody \<rparr>, [])
   \<and> api_handler no_credential demo_runtime \<lparr> req_method = ''GET'', req_url = ''/orders'', req_body = '''' \<rparr>
     = (\<lparr> res_status = 404, res_headers = defaultHeaders,
          res_body = JsonBody (error_object ''Not found'') \<rparr>, [])
   \<and> res_status (fst (server_handler demo_runtime \<lparr> req_method = ''GET'', req_url = ''/orders'', req_body = '''' \<rparr>)) = 404"
  using preflight_and_unknown_routes
          [of "\<lparr> req_method = ''OPTIONS'', req_url = ''/create-payment-intent'', req_body = '''' \<rparr>"
              demo_runtime no_credential]
        preflight_and_unknown_routes
          [of "\<lparr> req_method = ''GET'', req_url = ''/orders'', req_body = '''' \<rparr>"
              demo_runtime no_credential]
  by simp

subsection \<open>Amount validation\<close>

lemma on_end_invalid:
  assumes "rt_parse rt (if b = [] then ''{}'' else b) = Inr payload"
      and "get_member payload ''amount'' = Inr x"
      and "x = None
           \<or> js_Number (rt_coerce rt) (js_or x (JNum 0)) = NaN
           \<or> js_Number (rt_coerce rt) (js_or x (JNum 0)) = NegInf
           \<or> (\<exists>r. js_Number (rt_coerce rt) (js_or x (JNum 0)) = Fin r \<and> r \<le> 0)"
  shows "on_end rt c b = (invalid_amount_response, [])"
proof -
  have "num_falsy (js_Number (rt_coerce rt) (js_or x (JNum 0)))
          \<or> num_le_zero (js_Number (rt_coerce rt) (js_or x (JNum 0)))"
    using assms(3) by (auto simp: js_or_def)
  then show ?thesis
    using assms(1,2) by (simp add: on_end_def Let_def invalid_amount_response_def)
qed

lemma on_end_null:
  assumes "rt_parse rt (if b = [] then ''{}'' else b) = Inr JNull"
  shows "on_end rt c b = (c (Some null_read_message), [])"
  using assms by (simp add: on_end_def)

lemma on_end_syntax_error:
  assumes "b \<noteq> []" and "rt_parse rt b = Inl msg"
  shows "on_end rt c b = (c (Some msg), [])"
  using assms by (simp add: on_end_def)

text \<open>
  Claim C8, as stated, fails: the serverless handler checks the processor credential
  before it reads the body, so a \<^verbatim>\<open>POST\<close> with the body \<^verbatim>\<open>{"amount":0}\<close> is answered
  500, not 400, when no credential is configured.
\<close>

theorem api_zero_amount_without_credential:
  \<open>res_status (fst (api_handler no_credential demo_runtime (post_intent ''{"amount":0}''))) = 500\<close>
  by (simp add: api_handler_def stripeSecret_def str_truthy_def no_credential_def post_intent_def)

text \<open>
  Claim C8, amended. For every \<^verbatim>\<open>POST\<close> request:
  \<^item> the serverless handler without a processor credential answers 500 with the message
    that the secret key is not configured, whatever the body, and calls no processor;
  \<^item> when the body (the empty body read as \<^verbatim>\<open>{}\<close>) parses to a value other than
    \<^verbatim>\<open>null\<close> whose \<^verbatim>\<open>amount\<close> is missing, or coerces to zero, to a negative number, to
    negative infinity or to no number at all, the standalone server, on the path
    \<^verbatim>\<open>/create-payment-intent\<close>, and the serverless handler with a credential answer 400
    with the body \<^verbatim>\<open>{"error":"Invalid amount"}\<close> and call no processor;
  \<^item> when the body parses to \<^verbatim>\<open>null\<close>, reading its \<^verbatim>\<open>amount\<close> throws, and the same two
    handlers answer 500 and call no processor.
\<close>

theorem invalid_amount_rejected:
  assumes "req_method req = ''POST''"
  shows "(stripeSecret env = [] \<longrightarrow>
            api_handler env rt req = (credential_missing_response, []))
       \<and> (rt_parse rt (if req_body req = [] then ''{}'' else req_body req) = Inr payload
            \<and> get_member payload ''amount'' = Inr x
            \<and> (x = None
               \<or> js_Number (rt_coerce rt) (js_or x (JNum 0)) = NaN
               \<or> js_Number (rt_coerce rt) (js_or x (JNum 0)) = NegInf
               \<or> (\<exists>r. js_Number (rt_coerce rt) (js_or x (JNum 0)) = Fin r \<and> r \<le> 0))
          \<longrightarrow> (req_url req = ''/create-payment-intent'' \<longrightarrow>
                 server_handler rt req = (invalid_amount_response, []))
              \<and> (stripeSecret env \<noteq> [] \<longrightarrow>
                 api_handler env rt req = (invalid_amount_response, [])))
       \<and> (rt_parse rt (if req_body req = [] then ''{}'' else req_body req) = Inr JNull
          \<longrightarrow> (req_url req = ''/create-payment-intent'' \<longrightarrow>
                 res_status (fst (server_handler rt req)) = 500 \<and> snd (server_handler rt req) = [])
              \<and> (stripeSecret env \<noteq> [] \<longrightarrow>
                 res_status (fst (api_handler env rt req)) = 500 \<and> snd (api_handler env rt req) = []))"
proof -
  have a: "api_handler env rt req = (credential_missing_response, [])" if "stripeSecret env = []"
    using assms that by (simp add: api_handler_def credential_missing_response_def)
  have b: "on_end rt c (req_body req) = (invalid_amount_response, [])"
    if "rt_parse rt (if req_body req = [] then ''{}'' else req_body req) = Inr payload"
       "get_member payload ''amount'' = Inr x"
       "x = None
        \<or> js_Number (rt_coerce rt) (js_or x (JNum 0)) = NaN
        \<or> js_Number (rt_coerce rt) (js_or x (JNum 0)) = NegInf
        \<or> (\<exists>r. js_Number (rt_coerce rt) (js_or x (JNum 0)) = Fin r \<and> r \<le> 0)" for c
    using that by (rule on_end_invalid)
  have n: "on_end rt c (req_body req) = (c (Some null_read_message), [])"
    if "rt_parse rt (if req_body req = [] then ''{}'' else req_body req) = Inr JNull" for c
    using that by (rule on_end_null)
  have s: "res_status (server_catch m) = 500" "res_status (api_catch m) = 500" for m
    by (simp_all add: server_catch_def api_catch_def)
  have srv: "server_handler rt req = on_end rt server_catch (req_body req)"
    if "req_url req = ''/create-payment-intent''"
    using assms that by (simp add: server_handler_def)
  have api: "api_handler env rt req = on_end rt api_catch (req_body req)"
    if "stripeSecret env \<noteq> []"
    using assms that by (simp add: api_handler_def)
  show ?thesis
    using a b n s srv api by auto
qed

text \<open>The amended claim C8 at the bodies \<^verbatim>\<open>{"amount":-5}\<close>, \<^verbatim>\<open>{"amount":"-Infinity"}\<close>
  and \<^verbatim>\<open>null\<close>, and at a handler without a credential.\<close>

theorem invalid_amount_rejected_witness:
  \<open>server_handler demo_runtime (post_intent ''{"amount":-5}'') = (invalid_amount_response, [])
   \<and> api_handler test_credential demo_runtime (post_intent ''{"amount":-5}'') = (invalid_amount_response, [])
   \<and> server_handler demo_runtime (post_intent ''{"amount":"-Infinity"}'') = (invalid_amount_response, [])
   \<and> api_handler no_credential demo_runtime (post_intent ''{"amount":-5}'') = (credential_missing_response, [])
   \<and> res_status (fst (server_handler demo_runtime (post_intent ''null''))) = 500
   \<and> res_status (fst (api_handler test_credential demo_runtime (post_intent ''null''))) = 500\<close>
proof -
  have p: \<open>rt_parse demo_runtime
             (if req_body (post_intent ''{"amount":-5}'') = [] then ''{}''
              else req_body (post_intent ''{"amount":-5}''))
           = Inr (JObj [(''amount'', JNum (-5))])\<close>
          \<open>rt_parse demo_runtime
             (if req_body (post_intent ''{"amount":"-Infinity"}'') = [] then ''{}''
              else req_body (post_intent ''{"amount":"-Infinity"}''))
           = Inr (JObj [(''amount'', JStr ''-Infinity'')])\<close>
          \<open>rt_parse demo_runtime
             (if req_body (post_intent ''null'') = [] then ''{}''
              else req_body (post_intent ''null''))
           = Inr JNull\<close>
    by (simp_all add: demo_runtime_def demo_parse_def post_intent_def)
  have m: "get_member (JObj [(''amount'', v)]) ''amount'' = Inr (Some v)" for v
    by simp
  have a: "js_Number (rt_coerce demo_runtime) (js_or (Some (JNum (-5))) (JNum 0)) = Fin (-5)"
          "js_Number (rt_coerce demo_runtime) (js_or (Some (JStr ''-Infinity'')) (JNum 0)) = NegInf"
    by (simp_all add: js_or_def demo_runtime_def)
  have q: "req_method (post_intent b) = ''POST''"
          "req_url (post_intent b) = ''/create-payment-intent''" for b
    by (simp_all add: post_intent_def)
  have s: "stripeSecret test_credential \<noteq> []" "stripeSecret no_credential = []"
    by (simp_all add: stripeSecret_def str_truthy_def test_credential_def no_credential_def)
  from invalid_amount_rejected
         [OF q(1) [of \<open>''{"amount":-5}''\<close>], where rt = demo_runtime and env = test_credential
            and payload = "JObj [(''amount'', JNum (-5))]" and x = "Some (JNum (-5))"]
       invalid_amount_rejected
         [OF q(1) [of \<open>''{"amount":"-Infinity"}''\<close>], where rt = demo_runtime and env = test_credential
            and payload = "JObj [(''amount'', JStr ''-Infinity'')]" and x = "Some (JStr ''-Infinity'')"]
       invalid_amount_rejected
         [OF q(1) [of \<open>''{"amount":-5}''\<close>], where rt = demo_runtime and env = no_credential
            and payload = "JObj [(''amount'', JNum (-5))]" and x = "Some (JNum (-5))"]
       invalid_amount_rejected
         [OF q(1) [of \<open>''null''\<close>], where rt = demo_runtime and env = test_credential
            and payload = JNull and x = None]
  show ?thesis
    by (simp add: p m a q s)
qed

subsection \<open>Bodies that are not JSON, and the empty body\<close>

text \<open>
  Claim C10, as stated, fails in its second half: the serverless handler without a
  processor credential answers a \<^verbatim>\<open>POST\<close> with an empty body 500, from its credential
  check, not 400.
\<close>

theorem api_empty_body_without_credential:
  "res_status (fst (api_handler no_credential demo_runtime (post_intent ''''))) = 500"
  by (simp add: api_handler_def stripeSecret_def str_truthy_def no_credential_def post_intent_def)

text \<open>
  Claim C10, amended. For a \<^verbatim>\<open>POST\<close> request: when the body is not empty and
  \<^verbatim>\<open>JSON.parse\<close> throws on it, the standalone server (on \<^verbatim>\<open>/create-payment-intent\<close>)
  and the serverless handler answer 500 and call no processor; when the body is empty it
  is read as \<^verbatim>\<open>{}\<close> and answered 400 \<^verbatim>\<open>Invalid amount\<close> by the standalone server, and
  by the serverless handler when a processor credential is configured.
\<close>

theorem malformed_or_empty_body:
  assumes "req_method req = ''POST''"
  shows "(req_body req \<noteq> [] \<longrightarrow> rt_parse rt (req_body req) = Inl msg \<longrightarrow>
            (req_url req = ''/create-payment-intent'' \<longrightarrow>
               res_status (fst (server_handler rt req)) = 500 \<and> snd (server_handler rt req) = [])
          \<and> res_status (fst (api_handler env rt req)) = 500 \<and> snd (api_handler env rt req) = [])
       \<and> (req_body req = [] \<longrightarrow> rt_parse rt ''{}'' = Inr (JObj []) \<longrightarrow>
            (req_url req = ''/create-payment-intent'' \<longrightarrow>
               server_handler rt req = (invalid_amount_response, []))
          \<and> (stripeSecret env \<noteq> [] \<longrightarrow> api_handler env rt req = (invalid_amount_response, [])))"
proof -
  have e: "on_end rt c [] = (invalid_amount_response, [])" if "rt_parse rt ''{}'' = Inr (JObj [])" for c
    using on_end_invalid [of rt "[]" "JObj []" None c] that by simp
  show ?thesis
    using assms e
    by (auto simp add: server_handler_def api_handler_def on_end_syntax_error
                       server_catch_def api_catch_def)
qed

text \<open>The amended claim C10 at the body \<^verbatim>\<open>{amount\<close> and at the empty body.\<close>

theorem malformed_or_empty_body_witness:
  "res_status (fst (server_handler demo_runtime (post_intent ''{amount''))) = 500
   \<and> res_status (fst (api_handler test_credential demo_runtime (post_intent ''{amount''))) = 500
   \<and> server_handler demo_runtime (post_intent '''') = (invalid_amount_response, [])
   \<and> api_handler test_credential demo_runtime (post_intent '''') = (invalid_amount_response, [])"
proof -
  have s: "stripeSecret test_credential \<noteq> []"
    by (simp add: stripeSecret_def str_truthy_def test_credential_def)
  have b: "rt_parse demo_runtime ''{amount'' = Inl ''Unexpected token''"
    by (simp add: demo_runtime_def demo_parse_def)
  have e: "rt_parse demo_runtime ''{}'' = Inr (JObj [])"
    by (simp add: demo_runtime_def demo_parse_def)
  have q: "req_method (post_intent x) = ''POST''" for x
    by (simp add: post_intent_def)
  have f: "req_body (post_intent x) = x" "req_url (post_intent x) = ''/create-payment-intent''" for x
    by (simp_all add: post_intent_def)
  from malformed_or_empty_body [OF q, of "''{amount''" demo_runtime "''Unexpected token''" test_credential]
       malformed_or_empty_body [OF q, of "''''" demo_runtime "''Unexpected token''" test_credential]
       s b e
  show ?thesis by (simp add: f)
qed

section \<open>Properties of the storefront\<close>

subsection \<open>Reading and writing variants\<close>

lemma num_or_zero [simp]: "num_or x 0 = x"
  by (simp add: num_or_def)

lemma single_Some: "single xs = Some x \<longleftrightarrow> xs = [x]"
  by (cases xs rule: list.exhaust [case_product list.exhaust]) (auto simp: single_def split: list.splits)

lemma select_variant_Some:
  assumes "select_variant d i = Some x"
  shows "x \<in> set (product_variants d)" and "v_id x = i"
    and "\<And>v. v \<in> set (product_variants d) \<Longrightarrow> v_id v = i \<Longrightarrow> v = x"
proof -
  have f: "filter (\<lambda>v. v_id v = i) (product_variants d) = [x]"
    using assms by (simp add: select_variant_def single_Some)
  have s: "set (filter (\<lambda>v. v_id v = i) (product_variants d)) = {x}"
    by (simp add: f)
  from s show "x \<in> set (product_variants d)" by auto
  from s show "v_id x = i" by auto
  fix v assume "v \<in> set (product_variants d)" "v_id v = i"
  then have "v \<in> set (filter (\<lambda>v. v_id v = i) (product_variants d))" by simp
  with s show "v = x" by simp
qed

lemma distinct_filter_single:
  assumes "distinct (map f xs)"
  shows "filter (\<lambda>x. f x = k) xs = [] \<or> (\<exists>x. filter (\<lambda>x. f x = k) xs = [x])"
  using assms
proof (induction xs)
  case Nil
  then show ?case by simp
next
  case (Cons a xs)
  show ?case
  proof (cases "f a = k")
    case True
    with Cons.prems have "\<forall>x\<in>set xs. f x \<noteq> k" by (force simp: image_iff)
    then have "filter (\<lambda>x. f x = k) xs = []" by (simp add: filter_empty_conv)
    with True show ?thesis by simp
  next
    case False
    with Cons show ?thesis by simp
  qed
qed

lemma select_variant_None:
  assumes "variant_ids_distinct d" and "select_variant d i = None"
      and "v \<in> set (product_variants d)"
  shows "v_id v \<noteq> i"
proof
  assume "v_id v = i"
  with assms(3) have ne: "filter (\<lambda>v. v_id v = i) (product_variants d) \<noteq> []"
    by (auto simp: filter_empty_conv)
  from distinct_filter_single [of v_id "product_variants d" i] assms(1) ne
  obtain x where "filter (\<lambda>v. v_id v = i) (product_variants d) = [x]"
    by (auto simp: variant_ids_distinct_def)
  then have "select_variant d i = Some x"
    by (simp add: select_variant_def single_def)
  with assms(2) show False by simp
qed

lemma update_variant_stock_ids [simp]:
  "map v_id (product_variants (update_variant_stock i n d)) = map v_id (product_variants d)"
  by (simp add: update_variant_stock_def comp_def if_distrib cong: if_cong)

lemma update_variant_stock_distinct [simp]:
  "variant_ids_distinct (update_variant_stock i n d) = variant_ids_distinct d"
  by (simp add: variant_ids_distinct_def)

lemma update_variant_stock_frame:
  "update_variant_stock i n d = d\<lparr> product_variants := product_variants (update_variant_stock i n d) \<rparr>"
  by (simp add: update_variant_stock_def)

lemma restore_loop_frame:
  "fst (restore_loop g its d pids) = d\<lparr> product_variants := product_variants (fst (restore_loop g its d pids)) \<rparr>"
proof (induction its arbitrary: d pids)
  case Nil
  then show ?case by simp
next
  case (Cons it its)
  show ?case
  proof (cases "g \<and> oi_product_variant_id it = []")
    case True
    then show ?thesis using Cons.IH [of d pids] by simp
  next
    case False
    then have ng: "(g \<and> oi_product_variant_id it = []) = False" by simp
    show ?thesis
    proof (cases "select_variant d (oi_product_variant_id it)")
      case None
      then show ?thesis using Cons.IH [of d pids] by (simp add: ng)
    next
      case (Some variant)
      let ?d1 = "update_variant_stock (v_id variant) (v_stock variant + oi_quantity it) d"
      have "fst (restore_loop g its ?d1 (set_add pids (v_product_id variant)))
              = ?d1\<lparr> product_variants := product_variants (fst (restore_loop g its ?d1 (set_add pids (v_product_id variant)))) \<rparr>"
        by (rule Cons.IH)
      also have "\<dots> = d\<lparr> product_variants := product_variants (fst (restore_loop g its ?d1 (set_add pids (v_product_id variant)))) \<rparr>"
        by (simp add: update_variant_stock_def)
      finally show ?thesis using Some by (simp add: ng)
    qed
  qed
qed

lemma restored_qty_Cons:
  "restored_qty g (it # its) i =
     (if oi_product_variant_id it = i \<and> \<not> (g \<and> i = []) then oi_quantity it else 0)
       + restored_qty g its i"
  by (auto simp add: restored_qty_def)

lemma restored_qty_Nil [simp]: "restored_qty g [] i = 0"
  by (simp add: restored_qty_def)

lemma restore_loop_rows:
  assumes "variant_ids_distinct d"
  shows "product_variants (fst (restore_loop g its d pids))
           = map (\<lambda>v. v\<lparr> v_stock := v_stock v + restored_qty g its (v_id v) \<rparr>) (product_variants d)"
  using assms
proof (induction its arbitrary: d pids)
  case Nil
  then show ?case by (simp add: map_idI)
next
  case (Cons it its)
  let ?vid = "oi_product_variant_id it"
  show ?case
  proof (cases "g \<and> ?vid = []")
    case True
    then have "restored_qty g (it # its) i = restored_qty g its i" for i
      by (auto simp: restored_qty_Cons)
    then show ?thesis using True Cons.IH [OF Cons.prems, of pids] by simp
  next
    case False
    then have ng: "(g \<and> oi_product_variant_id it = []) = False" by simp
    show ?thesis
    proof (cases "select_variant d ?vid")
      case None
      have "restored_qty g (it # its) (v_id v) = restored_qty g its (v_id v)"
        if "v \<in> set (product_variants d)" for v
        using select_variant_None [OF Cons.prems None that] by (simp add: restored_qty_Cons)
      then show ?thesis using None Cons.IH [OF Cons.prems, of pids] by (simp add: ng)
    next
      case (Some variant)
      have vin: "variant \<in> set (product_variants d)" and vid: "v_id variant = ?vid"
        using select_variant_Some(1,2) [OF Some] by simp_all
      have uniq: "v = variant" if "v \<in> set (product_variants d)" "v_id v = ?vid" for v
        using select_variant_Some(3) [OF Some that] .
      let ?d1 = "update_variant_stock (v_id variant) (v_stock variant + oi_quantity it) d"
      have d1: "variant_ids_distinct ?d1" using Cons.prems by simp
      have step: "(if v_id v = v_id variant then v\<lparr> v_stock := v_stock variant + oi_quantity it \<rparr> else v)
                     \<lparr> v_stock := v_stock (if v_id v = v_id variant then v\<lparr> v_stock := v_stock variant + oi_quantity it \<rparr> else v)
                                  + restored_qty g its (v_id (if v_id v = v_id variant then v\<lparr> v_stock := v_stock variant + oi_quantity it \<rparr> else v)) \<rparr>
                  = v\<lparr> v_stock := v_stock v + restored_qty g (it # its) (v_id v) \<rparr>"
        if "v \<in> set (product_variants d)" for v
      proof (cases "v_id v = ?vid")
        case True
        then have e: "v = variant" using uniq that by simp
        have q: "restored_qty g (it # its) ?vid = oi_quantity it + restored_qty g its ?vid"
          using False by (simp add: restored_qty_Cons)
        show ?thesis unfolding e by (simp add: add.assoc vid q)
      next
        case False
        then have "restored_qty g (it # its) (v_id v) = restored_qty g its (v_id v)"
          by (simp add: restored_qty_Cons)
        with False show ?thesis by (simp add: vid)
      qed
      have "product_variants (fst (restore_loop g (it # its) d pids))
              = product_variants (fst (restore_loop g its ?d1 (set_add pids (v_product_id variant))))"
        using Some by (simp add: ng)
      also have "\<dots> = map (\<lambda>v. v\<lparr> v_stock := v_stock v + restored_qty g its (v_id v) \<rparr>) (product_variants ?d1)"
        by (rule Cons.IH [OF d1])
      also have "\<dots> = map (\<lambda>v. v\<lparr> v_stock := v_stock v + restored_qty g (it # its) (v_id v) \<rparr>) (product_variants d)"
        unfolding update_variant_stock_def using step by (simp del: restore_loop.simps)
      finally show ?thesis .
    qed
  qed
qed

lemma select_variant_found:
  assumes "variant_ids_distinct d" and "v \<in> set (product_variants d)"
  shows "select_variant d (v_id v) = Some v"
proof (cases "select_variant d (v_id v)")
  case None
  from select_variant_None [OF assms(1) None assms(2)] show ?thesis by simp
next
  case (Some x)
  from select_variant_Some(3) [OF Some assms(2)] Some show ?thesis by simp
qed

lemma set_add_set [simp]: "set (set_add xs x) = insert x (set xs)"
  by (auto simp: set_add_def)

lemma restore_loop_pids_mono:
  "set pids \<subseteq> set (snd (restore_loop g its d pids))"
proof (induction its arbitrary: d pids)
  case Nil
  then show ?case by simp
next
  case (Cons it its)
  show ?case
  proof (cases "g \<and> oi_product_variant_id it = []")
    case True
    then show ?thesis using Cons.IH [of pids d] by simp
  next
    case False
    then have ng: "(g \<and> oi_product_variant_id it = []) = False" by simp
    show ?thesis
    proof (cases "select_variant d (oi_product_variant_id it)")
      case None
      then show ?thesis using Cons.IH [of pids d] by (simp add: ng)
    next
      case (Some variant)
      have "set pids \<subseteq> set (set_add pids (v_product_id variant))" by auto
      also have "\<dots> \<subseteq> set (snd (restore_loop g its
          (update_variant_stock (v_id variant) (v_stock variant + oi_quantity it) d)
          (set_add pids (v_product_id variant))))"
        by (rule Cons.IH)
      finally show ?thesis using Some by (simp add: ng)
    qed
  qed
qed

lemma restore_loop_pids_hit:
  assumes "variant_ids_distinct d" and "v \<in> set (product_variants d)"
      and "it \<in> set its" and "oi_product_variant_id it = v_id v" and "\<not> (g \<and> v_id v = [])"
  shows "v_product_id v \<in> set (snd (restore_loop g its d pids))"
  using assms
proof (induction its arbitrary: d pids v)
  case Nil
  then show ?case by simp
next
  case (Cons a its)
  let ?vid = "oi_product_variant_id a"
  show ?case
  proof (cases "a = it")
    case True
    then have ng: "(g \<and> oi_product_variant_id a = []) = False"
      using Cons.prems(4,5) by simp
    have sel: "select_variant d ?vid = Some v"
      using select_variant_found [OF Cons.prems(1,2)] True Cons.prems(4) by simp
    have "v_product_id v \<in> set (set_add pids (v_product_id v))" by simp
    also have "\<dots> \<subseteq> set (snd (restore_loop g its
          (update_variant_stock (v_id v) (v_stock v + oi_quantity a) d)
          (set_add pids (v_product_id v))))"
      by (rule restore_loop_pids_mono)
    finally show ?thesis using sel by (simp add: ng)
  next
    case False
    with Cons.prems(3) have tl: "it \<in> set its" by simp
    show ?thesis
    proof (cases "g \<and> ?vid = []")
      case True
      then show ?thesis
        using Cons.IH [OF Cons.prems(1,2) tl Cons.prems(4,5), of pids] by simp
    next
      case False
      then have ng: "(g \<and> oi_product_variant_id a = []) = False" by simp
      show ?thesis
      proof (cases "select_variant d ?vid")
        case None
        then show ?thesis
          using Cons.IH [OF Cons.prems(1,2) tl Cons.prems(4,5), of pids] by (simp add: ng)
      next
        case (Some variant)
        let ?n = "v_stock variant + oi_quantity a"
        let ?d1 = "update_variant_stock (v_id variant) ?n d"
        let ?v1 = "if v_id v = v_id variant then v\<lparr> v_stock := ?n \<rparr> else v"
        have d1: "variant_ids_distinct ?d1" using Cons.prems(1) by simp
        have v1: "?v1 \<in> set (product_variants ?d1)"
          using Cons.prems(2) by (auto simp: update_variant_stock_def)
        have i1: "oi_product_variant_id it = v_id ?v1" using Cons.prems(4) by simp
        have g1: "\<not> (g \<and> v_id ?v1 = [])" using Cons.prems(5) by auto
        have "v_product_id ?v1 \<in> set (snd (restore_loop g its ?d1 (set_add pids (v_product_id variant))))"
          by (rule Cons.IH [OF d1 v1 tl i1 g1])
        moreover have "v_product_id ?v1 = v_product_id v" by simp
        ultimately show ?thesis using Some by (simp add: ng)
      qed
    qed
  qed
qed

lemma foldl_add_sum:
  fixes a :: int
  shows "foldl (\<lambda>s v. s + f v) a xs = a + sum_list (map f xs)"
  by (induction xs arbitrary: a) simp_all

lemma variant_total_sum:
  "variant_total d pid
     = sum_list (map v_stock (filter (\<lambda>v. v_product_id v = pid) (product_variants d)))"
  by (simp add: variant_total_def foldl_add_sum)

lemma recompute_product_frame:
  "recompute_product pid d = d\<lparr> products := products (recompute_product pid d) \<rparr>"
  by (simp add: recompute_product_def)

lemma recompute_all_frame:
  "recompute_all pids d = d\<lparr> products := products (recompute_all pids d) \<rparr>"
proof (induction pids arbitrary: d)
  case Nil
  then show ?case by simp
next
  case (Cons pid pids)
  have "recompute_all pids (recompute_product pid d)
          = (recompute_product pid d)\<lparr> products := products (recompute_all pids (recompute_product pid d)) \<rparr>"
    by (rule Cons.IH)
  also have "\<dots> = d\<lparr> products := products (recompute_all pids (recompute_product pid d)) \<rparr>"
    by (simp add: recompute_product_def)
  finally show ?case by simp
qed

lemma in_set_mapE:
  assumes "y \<in> set (map f xs)"
  obtains x where "x \<in> set xs" and "y = f x"
  using assms by auto

lemma recompute_product_rows:
  assumes "p \<in> set (products (recompute_product pid d))"
  obtains x where "x \<in> set (products d)"
    and "p = (if p_id x = pid then x\<lparr> p_stock := variant_total d pid \<rparr> else x)"
proof -
  from assms have "p \<in> set (map (\<lambda>p. if p_id p = pid then p\<lparr> p_stock := variant_total d pid \<rparr> else p) (products d))"
    unfolding recompute_product_def by simp
  then show thesis by (rule in_set_mapE) (rule that)
qed

lemma recompute_product_variants [simp]:
  "product_variants (recompute_product pid d) = product_variants d"
  by (simp add: recompute_product_def)

lemma recompute_product_aggregate:
  "aggregate_ok (recompute_product pid d) pid"
  unfolding aggregate_ok_def
proof (intro ballI impI)
  fix p assume m: "p \<in> set (products (recompute_product pid d))" and i: "p_id p = pid"
  from m obtain x where "x \<in> set (products d)"
    and "p = (if p_id x = pid then x\<lparr> p_stock := variant_total d pid \<rparr> else x)"
    by (rule recompute_product_rows)
  with i have "p = x\<lparr> p_stock := variant_total d pid \<rparr>"
    by (cases "p_id x = pid") simp_all
  then show "p_stock p = sum_list (map v_stock (filter (\<lambda>v. v_product_id v = pid)
                (product_variants (recompute_product pid d))))"
    by (simp add: variant_total_sum)
qed

lemma recompute_product_keeps:
  assumes "aggregate_ok d pid"
  shows "aggregate_ok (recompute_product pid' d) pid"
proof (cases "pid' = pid")
  case True
  then show ?thesis using recompute_product_aggregate by simp
next
  case False
  show ?thesis
    unfolding aggregate_ok_def
  proof (intro ballI impI)
    fix p assume m: "p \<in> set (products (recompute_product pid' d))" and i: "p_id p = pid"
    from m obtain x where x: "x \<in> set (products d)"
      and p: "p = (if p_id x = pid' then x\<lparr> p_stock := variant_total d pid' \<rparr> else x)"
      by (rule recompute_product_rows)
    from p i False have "p = x" by (cases "p_id x = pid'") auto
    with x i assms show "p_stock p = sum_list (map v_stock (filter (\<lambda>v. v_product_id v = pid)
                (product_variants (recompute_product pid' d))))"
      by (simp add: aggregate_ok_def)
  qed
qed

lemma recompute_all_keeps:
  "aggregate_ok d pid \<Longrightarrow> aggregate_ok (recompute_all pids d) pid"
  by (induction pids arbitrary: d) (simp_all add: recompute_product_keeps)

lemma recompute_all_aggregate:
  "pid \<in> set pids \<Longrightarrow> aggregate_ok (recompute_all pids d) pid"
proof (induction pids arbitrary: d)
  case Nil
  then show ?case by simp
next
  case (Cons a pids)
  show ?case
  proof (cases "pid = a")
    case True
    then show ?thesis
      using recompute_all_keeps [OF recompute_product_aggregate, of pids a d] by simp
  next
    case False
    with Cons.prems have "pid \<in> set pids" by simp
    then show ?thesis using Cons.IH by simp
  qed
qed

lemma line_quantities_Cons:
  "line_quantities (ci # cart) i =
     (if ci_product_variant_id ci = i then ci_quantity ci # line_quantities cart i
      else line_quantities cart i)"
  by (simp add: line_quantities_def)

lemma line_quantities_Nil [simp]: "line_quantities [] i = []"
  by (simp add: line_quantities_def)

lemma deducted_Nil [simp]: "deducted s [] = s"
  by (simp add: deducted_def)

lemma deducted_Cons [simp]: "deducted s (q # qs) = deducted (max 0 (s - q)) qs"
  by (simp add: deducted_def)

lemma deduct_loop_frame:
  "fst (deduct_loop cart d pids) = d\<lparr> product_variants := product_variants (fst (deduct_loop cart d pids)) \<rparr>"
proof (induction cart arbitrary: d pids)
  case Nil
  then show ?case by simp
next
  case (Cons ci cart)
  show ?case
  proof (cases "select_variant d (ci_product_variant_id ci)")
    case None
    then show ?thesis using Cons.IH [of d pids] by simp
  next
    case (Some variant)
    let ?d1 = "update_variant_stock (v_id variant) (max 0 (v_stock variant - ci_quantity ci)) d"
    let ?r = "deduct_loop cart ?d1 (set_add pids (v_product_id variant))"
    have "fst ?r = ?d1\<lparr> product_variants := product_variants (fst ?r) \<rparr>"
      by (rule Cons.IH)
    also have "\<dots> = d\<lparr> product_variants := product_variants (fst ?r) \<rparr>"
      by (simp add: update_variant_stock_def)
    finally show ?thesis using Some by simp
  qed
qed

lemma deduct_loop_rows:
  assumes "variant_ids_distinct d"
  shows "product_variants (fst (deduct_loop cart d pids))
           = map (\<lambda>v. v\<lparr> v_stock := deducted (v_stock v) (line_quantities cart (v_id v)) \<rparr>)
               (product_variants d)"
  using assms
proof (induction cart arbitrary: d pids)
  case Nil
  then show ?case by (simp add: map_idI)
next
  case (Cons ci cart)
  let ?vid = "ci_product_variant_id ci"
  show ?case
  proof (cases "select_variant d ?vid")
    case None
    have "line_quantities (ci # cart) (v_id v) = line_quantities cart (v_id v)"
      if "v \<in> set (product_variants d)" for v
      using select_variant_None [OF Cons.prems None that] by (simp add: line_quantities_Cons)
    then show ?thesis using None Cons.IH [OF Cons.prems, of pids] by simp
  next
    case (Some variant)
    have vid: "v_id variant = ?vid"
      using select_variant_Some(2) [OF Some] by simp
    have uniq: "v = variant" if "v \<in> set (product_variants d)" "v_id v = ?vid" for v
      using select_variant_Some(3) [OF Some that] .
    let ?n = "max 0 (v_stock variant - ci_quantity ci)"
    let ?d1 = "update_variant_stock (v_id variant) ?n d"
    have d1: "variant_ids_distinct ?d1" using Cons.prems by simp
    have step: "(if v_id v = v_id variant then v\<lparr> v_stock := ?n \<rparr> else v)
                   \<lparr> v_stock := deducted (v_stock (if v_id v = v_id variant then v\<lparr> v_stock := ?n \<rparr> else v))
                       (line_quantities cart (v_id (if v_id v = v_id variant then v\<lparr> v_stock := ?n \<rparr> else v))) \<rparr>
                = v\<lparr> v_stock := deducted (v_stock v) (line_quantities (ci # cart) (v_id v)) \<rparr>"
      if "v \<in> set (product_variants d)" for v
    proof (cases "v_id v = ?vid")
      case True
      then have e: "v = variant" using uniq that by simp
      show ?thesis unfolding e by (simp add: vid line_quantities_Cons)
    next
      case False
      then show ?thesis by (simp add: vid line_quantities_Cons)
    qed
    have "product_variants (fst (deduct_loop (ci # cart) d pids))
            = product_variants (fst (deduct_loop cart ?d1 (set_add pids (v_product_id variant))))"
      using Some by simp
    also have "\<dots> = map (\<lambda>v. v\<lparr> v_stock := deducted (v_stock v) (line_quantities cart (v_id v)) \<rparr>)
                        (product_variants ?d1)"
      by (rule Cons.IH [OF d1])
    also have "\<dots> = map (\<lambda>v. v\<lparr> v_stock := deducted (v_stock v) (line_quantities (ci # cart) (v_id v)) \<rparr>)
                        (product_variants d)"
      unfolding update_variant_stock_def using step by (simp del: deduct_loop.simps)
    finally show ?thesis .
  qed
qed

lemma deduct_loop_pids_mono:
  "set pids \<subseteq> set (snd (deduct_loop cart d pids))"
proof (induction cart arbitrary: d pids)
  case Nil
  then show ?case by simp
next
  case (Cons ci cart)
  show ?case
  proof (cases "select_variant d (ci_product_variant_id ci)")
    case None
    then show ?thesis using Cons.IH [of pids d] by simp
  next
    case (Some variant)
    have "set pids \<subseteq> set (set_add pids (v_product_id variant))" by auto
    also have "\<dots> \<subseteq> set (snd (deduct_loop cart
        (update_variant_stock (v_id variant) (max 0 (v_stock variant - ci_quantity ci)) d)
        (set_add pids (v_product_id variant))))"
      by (rule Cons.IH)
    finally show ?thesis using Some by simp
  qed
qed

lemma deduct_loop_pids_hit:
  assumes "variant_ids_distinct d" and "v \<in> set (product_variants d)"
      and "ci \<in> set cart" and "ci_product_variant_id ci = v_id v"
  shows "v_product_id v \<in> set (snd (deduct_loop cart d pids))"
  using assms
proof (induction cart arbitrary: d pids v)
  case Nil
  then show ?case by simp
next
  case (Cons a cart)
  let ?vid = "ci_product_variant_id a"
  show ?case
  proof (cases "a = ci")
    case True
    have sel: "select_variant d ?vid = Some v"
      using select_variant_found [OF Cons.prems(1,2)] True Cons.prems(4) by simp
    have "v_product_id v \<in> set (set_add pids (v_product_id v))" by simp
    also have "\<dots> \<subseteq> set (snd (deduct_loop cart
        (update_variant_stock (v_id v) (max 0 (v_stock v - ci_quantity a)) d)
        (set_add pids (v_product_id v))))"
      by (rule deduct_loop_pids_mono)
    finally show ?thesis using sel by simp
  next
    case False
    with Cons.prems(3) have tl: "ci \<in> set cart" by simp
    show ?thesis
    proof (cases "select_variant d ?vid")
      case None
      then show ?thesis
        using Cons.IH [OF Cons.prems(1,2) tl Cons.prems(4), of pids] by simp
    next
      case (Some variant)
      let ?n = "max 0 (v_stock variant - ci_quantity a)"
      let ?d1 = "update_variant_stock (v_id variant) ?n d"
      let ?v1 = "if v_id v = v_id variant then v\<lparr> v_stock := ?n \<rparr> else v"
      have d1: "variant_ids_distinct ?d1" using Cons.prems(1) by simp
      have v1: "?v1 \<in> set (product_variants ?d1)"
        using Cons.prems(2) by (auto simp: update_variant_stock_def)
      have i1: "ci_product_variant_id ci = v_id ?v1" using Cons.prems(4) by simp
      have "v_product_id ?v1 \<in> set (snd (deduct_loop cart ?d1 (set_add pids (v_product_id variant))))"
        by (rule Cons.IH [OF d1 v1 tl i1])
      moreover have "v_product_id ?v1 = v_product_id v" by simp
      ultimately show ?thesis using Some by simp
    qed
  qed
qed

subsection \<open>Restoring an order's stock\<close>

lemma frame_variants_products:
  "x = d\<lparr> product_variants := a, products := b \<rparr>
     \<Longrightarrow> x = d\<lparr> product_variants := product_variants x, products := products x \<rparr>"
  by simp

lemma restore_stock_frame:
  "restore_stock g orderId d
     = d\<lparr> product_variants := product_variants (restore_stock g orderId d),
          products := products (restore_stock g orderId d) \<rparr>"
proof -
  let ?r = "restore_loop g (items_of d orderId) d []"
  have "restore_stock g orderId d = recompute_all (snd ?r) (fst ?r)"
    by (simp add: restore_stock_def items_of_def Let_def)
  also have "\<dots> = (fst ?r)\<lparr> products := products (recompute_all (snd ?r) (fst ?r)) \<rparr>"
    by (rule recompute_all_frame)
  also have "fst ?r = d\<lparr> product_variants := product_variants (fst ?r) \<rparr>"
    by (rule restore_loop_frame)
  finally have e: "restore_stock g orderId d
      = d\<lparr> product_variants := product_variants (fst ?r),
           products := products (recompute_all (snd ?r) (d\<lparr> product_variants := product_variants (fst ?r) \<rparr>)) \<rparr>"
    by simp
  show ?thesis by (rule frame_variants_products [OF e])
qed

lemma recompute_all_variants [simp]:
  "product_variants (recompute_all pids d) = product_variants d"
  by (induction pids arbitrary: d) simp_all

lemma restore_stock_rows:
  assumes "variant_ids_distinct d"
  shows "product_variants (restore_stock g orderId d)
           = map (\<lambda>v. v\<lparr> v_stock := v_stock v + restored_qty g (items_of d orderId) (v_id v) \<rparr>)
               (product_variants d)"
  using restore_loop_rows [OF assms, of g "items_of d orderId" "[]"]
  by (simp add: restore_stock_def items_of_def Let_def)

lemma restore_stock_aggregate:
  assumes "variant_ids_distinct d" and "v \<in> set (product_variants d)"
      and "it \<in> set (items_of d orderId)" and "oi_product_variant_id it = v_id v"
      and "\<not> (g \<and> v_id v = [])"
  shows "aggregate_ok (restore_stock g orderId d) (v_product_id v)"
  using recompute_all_aggregate [OF restore_loop_pids_hit [OF assms, of "[]"]]
  by (simp add: restore_stock_def items_of_def Let_def)

subsection \<open>The products table after a recomputation\<close>

lemma recompute_all_products:
  "products (recompute_all pids d)
     = map (\<lambda>p. if p_id p \<in> set pids then p\<lparr> p_stock := variant_total d (p_id p) \<rparr> else p)
         (products d)"
proof (induction pids arbitrary: d)
  case Nil
  then show ?case by (simp add: map_idI)
next
  case (Cons pid pids)
  have vt: "variant_total (recompute_product pid d) = variant_total d"
    by (rule ext) (simp add: variant_total_def)
  have pr: "products (recompute_product pid d)
              = map (\<lambda>p. if p_id p = pid then p\<lparr> p_stock := variant_total d pid \<rparr> else p) (products d)"
    by (simp add: recompute_product_def)
  have "products (recompute_all (pid # pids) d) = products (recompute_all pids (recompute_product pid d))"
    by simp
  also have "\<dots> = map (\<lambda>p. if p_id p \<in> set pids
                                then p\<lparr> p_stock := variant_total (recompute_product pid d) (p_id p) \<rparr> else p)
                        (products (recompute_product pid d))"
    by (rule Cons.IH)
  also have "\<dots> = map (\<lambda>p. if p_id p \<in> set pids then p\<lparr> p_stock := variant_total d (p_id p) \<rparr> else p)
              (map (\<lambda>p. if p_id p = pid then p\<lparr> p_stock := variant_total d pid \<rparr> else p) (products d))"
    unfolding vt pr ..
  also have "\<dots> = map (\<lambda>p. if p_id p \<in> set (pid # pids)
                                then p\<lparr> p_stock := variant_total d (p_id p) \<rparr> else p) (products d)"
    unfolding map_map by (rule map_cong [OF refl]) auto
  finally show ?case .
qed

lemma owners_of_same:
  assumes "map (\<lambda>v. (v_id v, v_product_id v)) (product_variants d')
             = map (\<lambda>v. (v_id v, v_product_id v)) (product_variants d)"
  shows "owners_of d' vids = owners_of d vids"
proof -
  have "owners_of x vids
          = map snd (filter (\<lambda>k. fst k \<in> set vids) (map (\<lambda>v. (v_id v, v_product_id v)) (product_variants x)))"
    for x
    by (simp add: owners_of_def filter_map comp_def)
  then show ?thesis using assms by simp
qed

lemma update_variant_stock_keys [simp]:
  "map (\<lambda>v. (v_id v, v_product_id v)) (product_variants (update_variant_stock i n d))
     = map (\<lambda>v. (v_id v, v_product_id v)) (product_variants d)"
  unfolding update_variant_stock_def by (simp add: comp_def)

lemma owners_of_update [simp]:
  "owners_of (update_variant_stock i n d) vids = owners_of d vids"
  by (rule owners_of_same) simp

lemma owners_of_mem:
  "pid \<in> set (owners_of d vids)
     \<longleftrightarrow> (\<exists>v \<in> set (product_variants d). v_id v \<in> set vids \<and> v_product_id v = pid)"
  by (auto simp: owners_of_def)

lemma restore_loop_pids_sub:
  "set (snd (restore_loop g its d pids))
     \<subseteq> set pids \<union> set (owners_of d (map oi_product_variant_id its))"
proof (induction its arbitrary: d pids)
  case Nil
  then show ?case by simp
next
  case (Cons it its)
  have mono: "set (owners_of x (map oi_product_variant_id its))
                \<subseteq> set (owners_of x (map oi_product_variant_id (it # its)))" for x
    by (simp add: owners_of_mem subset_iff) blast
  show ?case
  proof (cases "g \<and> oi_product_variant_id it = []")
    case True
    then show ?thesis using Cons.IH [of d pids] mono [of d] by auto
  next
    case False
    then have ng: "(g \<and> oi_product_variant_id it = []) = False" by simp
    show ?thesis
    proof (cases "select_variant d (oi_product_variant_id it)")
      case None
      then show ?thesis using Cons.IH [of d pids] mono [of d] by (auto simp: ng)
    next
      case (Some variant)
      let ?d1 = "update_variant_stock (v_id variant) (v_stock variant + oi_quantity it) d"
      have "v_product_id variant \<in> set (owners_of d (map oi_product_variant_id (it # its)))"
        using select_variant_Some(1,2) [OF Some] by (auto simp: owners_of_mem)
      moreover have "set (snd (restore_loop g its ?d1 (set_add pids (v_product_id variant))))
                       \<subseteq> set (set_add pids (v_product_id variant))
                           \<union> set (owners_of d (map oi_product_variant_id its))"
        using Cons.IH [of ?d1 "set_add pids (v_product_id variant)"] by simp
      ultimately show ?thesis using Some mono [of d] by (auto simp: ng)
    qed
  qed
qed

lemma restore_loop_pids_exact:
  assumes "variant_ids_distinct d"
  shows "set (snd (restore_loop False its d [])) = set (owners_of d (map oi_product_variant_id its))"
proof
  show "set (snd (restore_loop False its d [])) \<subseteq> set (owners_of d (map oi_product_variant_id its))"
    using restore_loop_pids_sub [of False its d "[]"] by simp
  show "set (owners_of d (map oi_product_variant_id its)) \<subseteq> set (snd (restore_loop False its d []))"
  proof
    fix pid assume "pid \<in> set (owners_of d (map oi_product_variant_id its))"
    then obtain v it where "v \<in> set (product_variants d)" "it \<in> set its"
      "oi_product_variant_id it = v_id v" "v_product_id v = pid"
      by (auto simp: owners_of_mem)
    then show "pid \<in> set (snd (restore_loop False its d []))"
      using restore_loop_pids_hit [OF assms, of v it its False "[]"] by auto
  qed
qed

lemma deduct_loop_pids_sub:
  "set (snd (deduct_loop cart d pids))
     \<subseteq> set pids \<union> set (owners_of d (map ci_product_variant_id cart))"
proof (induction cart arbitrary: d pids)
  case Nil
  then show ?case by simp
next
  case (Cons ci cart)
  have mono: "set (owners_of x (map ci_product_variant_id cart))
                \<subseteq> set (owners_of x (map ci_product_variant_id (ci # cart)))" for x
    by (simp add: owners_of_mem subset_iff) blast
  show ?case
  proof (cases "select_variant d (ci_product_variant_id ci)")
    case None
    then show ?thesis using Cons.IH [of d pids] mono [of d] by auto
  next
    case (Some variant)
    let ?d1 = "update_variant_stock (v_id variant) (max 0 (v_stock variant - ci_quantity ci)) d"
    have "v_product_id variant \<in> set (owners_of d (map ci_product_variant_id (ci # cart)))"
      using select_variant_Some(1,2) [OF Some] by (auto simp: owners_of_mem)
    moreover have "set (snd (deduct_loop cart ?d1 (set_add pids (v_product_id variant))))
                     \<subseteq> set (set_add pids (v_product_id variant))
                         \<union> set (owners_of d (map ci_product_variant_id cart))"
      using Cons.IH [of ?d1 "set_add pids (v_product_id variant)"] by simp
    ultimately show ?thesis using Some mono [of d] by auto
  qed
qed

lemma deduct_loop_pids_exact:
  assumes "variant_ids_distinct d"
  shows "set (snd (deduct_loop cart d [])) = set (owners_of d (map ci_product_variant_id cart))"
proof
  show "set (snd (deduct_loop cart d [])) \<subseteq> set (owners_of d (map ci_product_variant_id cart))"
    using deduct_loop_pids_sub [of cart d "[]"] by simp
  show "set (owners_of d (map ci_product_variant_id cart)) \<subseteq> set (snd (deduct_loop cart d []))"
  proof
    fix pid assume "pid \<in> set (owners_of d (map ci_product_variant_id cart))"
    then obtain v ci where "v \<in> set (product_variants d)" "ci \<in> set cart"
      "ci_product_variant_id ci = v_id v" "v_product_id v = pid"
      by (auto simp: owners_of_mem)
    then show "pid \<in> set (snd (deduct_loop cart d []))"
      using deduct_loop_pids_hit [OF assms, of v ci cart "[]"] by auto
  qed
qed

lemma summed_stock_eq: "summed_stock d = variant_total d"
  by (rule ext) (simp add: summed_stock_def variant_total_sum)

lemma summed_stock_cong:
  "product_variants d' = product_variants d \<Longrightarrow> summed_stock d' = summed_stock d"
  by (rule ext) (simp add: summed_stock_def)

lemma restore_stock_products:
  assumes "variant_ids_distinct d"
  shows "products (restore_stock False orderId d)
           = map (\<lambda>p. if p_id p \<in> set (owners_of d (map oi_product_variant_id (items_of d orderId)))
                       then p\<lparr> p_stock := summed_stock (restore_stock False orderId d) (p_id p) \<rparr>
                       else p)
               (products d)"
proof -
  let ?r = "restore_loop False (items_of d orderId) d []"
  have r: "restore_stock False orderId d = recompute_all (snd ?r) (fst ?r)"
    by (simp add: restore_stock_def items_of_def Let_def)
  have pr: "products (fst ?r) = products d"
    by (subst restore_loop_frame) simp
  have st: "summed_stock (restore_stock False orderId d) = variant_total (fst ?r)"
    unfolding r using summed_stock_cong [of "recompute_all (snd ?r) (fst ?r)" "fst ?r"]
    by (simp add: summed_stock_eq)
  show ?thesis
    unfolding st unfolding r recompute_all_products pr restore_loop_pids_exact [OF assms] ..
qed

lemma after_deduction_products:
  assumes "variant_ids_distinct d"
  shows "products (after_deduction cart d)
           = map (\<lambda>p. if p_id p \<in> set (owners_of d (map ci_product_variant_id cart))
                       then p\<lparr> p_stock := summed_stock (after_deduction cart d) (p_id p) \<rparr>
                       else p)
               (products d)"
proof -
  let ?r = "deduct_loop cart d []"
  have pr: "products (fst ?r) = products d"
    by (subst deduct_loop_frame) simp
  have st: "summed_stock (after_deduction cart d) = variant_total (fst ?r)"
    unfolding after_deduction_def
    using summed_stock_cong [of "recompute_all (snd ?r) (fst ?r)" "fst ?r"]
    by (simp add: summed_stock_eq)
  show ?thesis
    unfolding st unfolding after_deduction_def recompute_all_products pr
      deduct_loop_pids_exact [OF assms] ..
qed

subsection \<open>Status changes and cancellation\<close>

lemma update_order_status_tables [simp]:
  "product_variants (update_order_status i s d) = product_variants d"
  "products (update_order_status i s d) = products d"
  "order_items (update_order_status i s d) = order_items d"
  "payments (update_order_status i s d) = payments d"
  by (simp_all add: update_order_status_def)

lemma update_order_status_items [simp]:
  "items_of (update_order_status i s d) orderId = items_of d orderId"
  by (simp add: items_of_def)

lemma update_order_status_distinct [simp]:
  "variant_ids_distinct (update_order_status i s d) = variant_ids_distinct d"
  by (simp add: variant_ids_distinct_def)

lemma restore_stock_tables [simp]:
  "orders (restore_stock g orderId d) = orders d"
  "order_items (restore_stock g orderId d) = order_items d"
  "payments (restore_stock g orderId d) = payments d"
  by (subst restore_stock_frame, simp)+

lemma updateStatus_found:
  assumes "select_order d orderId = Some ord"
  shows "snd (updateStatus orderId newStatus d) =
           (if toLowerCase newStatus = ''cancelled''
               \<and> (toLowerCase (o_status ord) = ''pending'' \<or> toLowerCase (o_status ord) = ''processing'')
            then restore_stock False orderId (update_order_status orderId newStatus d)
            else update_order_status orderId newStatus d)"
  using assms by (auto simp add: updateStatus_def Let_def)

lemma update_order_status_owners [simp]:
  "owners_of (update_order_status i s d) vids = owners_of d vids"
  by (simp add: owners_of_def)

text \<open>
  Claim C5. Let the administrator's \<^verbatim>\<open>updateStatus\<close> find the order. When the target
  status is \<^verbatim>\<open>cancelled\<close> and the previous status was \<^verbatim>\<open>pending\<close> or
  \<^verbatim>\<open>processing\<close> (both compared in lower case), every variant gets back the
  quantities of the order's items that name it, and the products table is the former
  one in which every product owning a variant named by an item of the order has, as its
  aggregate stock, the sum of the stock of its variants, every other row being
  unchanged. In every other case the variants and the products are left as they were;
  in particular when the previous status was \<^verbatim>\<open>shipping\<close>. In all cases the order's
  status becomes the new status. Variant identifiers are a primary key.
\<close>

theorem admin_update_restores_iff_early_cancel:
  assumes "select_order d orderId = Some ord" and "variant_ids_distinct d"
  shows "(toLowerCase newStatus = ''cancelled''
            \<and> (toLowerCase (o_status ord) = ''pending'' \<or> toLowerCase (o_status ord) = ''processing'')
          \<longrightarrow> product_variants (snd (updateStatus orderId newStatus d))
                = map (\<lambda>v. v\<lparr> v_stock := v_stock v + restored_qty False (items_of d orderId) (v_id v) \<rparr>)
                    (product_variants d)
              \<and> products (snd (updateStatus orderId newStatus d))
                = map (\<lambda>p. if p_id p \<in> set (owners_of d (map oi_product_variant_id (items_of d orderId)))
                            then p\<lparr> p_stock := summed_stock (snd (updateStatus orderId newStatus d)) (p_id p) \<rparr>
                            else p)
                    (products d)
              \<and> (\<forall>v \<in> set (product_variants d).
                    (\<exists>it \<in> set (items_of d orderId). oi_product_variant_id it = v_id v)
                    \<longrightarrow> aggregate_ok (snd (updateStatus orderId newStatus d)) (v_product_id v)))
       \<and> (\<not> (toLowerCase newStatus = ''cancelled''
               \<and> (toLowerCase (o_status ord) = ''pending'' \<or> toLowerCase (o_status ord) = ''processing''))
          \<longrightarrow> product_variants (snd (updateStatus orderId newStatus d)) = product_variants d
              \<and> products (snd (updateStatus orderId newStatus d)) = products d)
       \<and> (toLowerCase (o_status ord) = ''shipping''
          \<longrightarrow> product_variants (snd (updateStatus orderId newStatus d)) = product_variants d
              \<and> products (snd (updateStatus orderId newStatus d)) = products d)
       \<and> orders (snd (updateStatus orderId newStatus d))
           = map (\<lambda>r. if o_id r = orderId then r\<lparr> o_status := newStatus \<rparr> else r) (orders d)"
proof -
  let ?d1 = "update_order_status orderId newStatus d"
  have d1: "variant_ids_distinct ?d1" using assms(2) by simp
  have rows: "product_variants (restore_stock False orderId ?d1)
                = map (\<lambda>v. v\<lparr> v_stock := v_stock v + restored_qty False (items_of d orderId) (v_id v) \<rparr>)
                    (product_variants d)"
    using restore_stock_rows [OF d1, of False orderId] by simp
  have prods: "products (restore_stock False orderId ?d1)
                = map (\<lambda>p. if p_id p \<in> set (owners_of d (map oi_product_variant_id (items_of d orderId)))
                            then p\<lparr> p_stock := summed_stock (restore_stock False orderId ?d1) (p_id p) \<rparr>
                            else p)
                    (products d)"
    using restore_stock_products [OF d1, of orderId] by simp
  have agg: "aggregate_ok (restore_stock False orderId ?d1) (v_product_id v)"
    if "v \<in> set (product_variants d)" "it \<in> set (items_of d orderId)"
       "oi_product_variant_id it = v_id v" for v it
    using restore_stock_aggregate [OF d1, of v it orderId False] that by simp
  have ord: "orders (restore_stock False orderId ?d1) = orders ?d1" by simp
  have o1: "orders ?d1 = map (\<lambda>r. if o_id r = orderId then r\<lparr> o_status := newStatus \<rparr> else r) (orders d)"
    by (simp add: update_order_status_def)
  have ne: "''shipping'' \<noteq> ''pending''" "''shipping'' \<noteq> ''processing''" by simp_all
  show ?thesis
    unfolding updateStatus_found [OF assms(1)]
    using rows prods agg ord o1 ne by auto
qed

lemmas demo_defs = demo_db_def demo_variant_def demo_product_def demo_order_def demo_order_item_def
  shop_db_def demo_line_def demo_client_def cod_options_def

lemmas table_defs = select_variant_def select_order_def single_def update_variant_stock_def
  update_order_status_def num_or_def set_add_def variant_total_def recompute_product_def
  toLowerCase_def lower_char_def restore_stock_def order_status_or_empty_def

text \<open>Claim C5 at an order for two pieces of a variant holding three: cancelled from
  \<^verbatim>\<open>processing\<close> the variant holds five and so does the product, cancelled from
  \<^verbatim>\<open>shipping\<close> both still hold three and the status is the one passed.\<close>

theorem admin_update_restores_iff_early_cancel_witness:
  "product_variants (snd (updateStatus ''o1'' ''Cancelled'' (demo_db ''processing'')))
     = [demo_variant\<lparr> v_stock := 5 \<rparr>]
   \<and> products (snd (updateStatus ''o1'' ''Cancelled'' (demo_db ''processing'')))
     = [demo_product\<lparr> p_stock := 5 \<rparr>]
   \<and> aggregate_ok (snd (updateStatus ''o1'' ''Cancelled'' (demo_db ''processing''))) ''p1''
   \<and> product_variants (snd (updateStatus ''o1'' ''Cancelled'' (demo_db ''shipping''))) = [demo_variant]
   \<and> products (snd (updateStatus ''o1'' ''Cancelled'' (demo_db ''shipping''))) = [demo_product]
   \<and> orders (snd (updateStatus ''o1'' ''Cancelled'' (demo_db ''shipping''))) = [demo_order ''Cancelled'']"
proof -
  have s: "select_order (demo_db st) ''o1'' = Some (demo_order st)" for st
    by (simp add: demo_defs select_order_def single_def)
  have k: "variant_ids_distinct (demo_db st)" for st
    by (simp add: demo_defs variant_ids_distinct_def)
  have l: "toLowerCase ''Cancelled'' = ''cancelled''"
          "toLowerCase (o_status (demo_order ''processing'')) = ''processing''"
          "toLowerCase (o_status (demo_order ''shipping'')) = ''shipping''"
    by (simp_all add: toLowerCase_def lower_char_def demo_order_def)
  have i: "items_of (demo_db st) ''o1'' = [demo_order_item]" for st
    by (simp add: items_of_def demo_db_def demo_order_item_def)
  have t: "product_variants (demo_db st) = [demo_variant]" "products (demo_db st) = [demo_product]"
          "orders (demo_db st) = [demo_order st]" for st
    by (simp_all add: demo_db_def)
  have q: "restored_qty False [demo_order_item] (v_id demo_variant) = 2"
          "oi_product_variant_id demo_order_item = v_id demo_variant"
          "v_product_id demo_variant = ''p1''" "v_stock demo_variant = 3"
          "p_id demo_product = ''p1''"
          "owners_of (demo_db st) [v_id demo_variant] = [''p1'']" for st
    by (simp_all add: restored_qty_def owners_of_def demo_db_def demo_order_item_def
          demo_variant_def demo_product_def)
  have o: "(demo_order st)\<lparr> o_status := ''Cancelled'' \<rparr> = demo_order ''Cancelled''"
          "o_id (demo_order st) = ''o1''" for st
    by (simp_all add: demo_order_def)
  from admin_update_restores_iff_early_cancel
         [OF s [of "''processing''"] k, where newStatus = "''Cancelled''"]
       admin_update_restores_iff_early_cancel
         [OF s [of "''shipping''"] k, where newStatus = "''Cancelled''"]
  show ?thesis
    by (simp add: l i t q o summed_stock_def)
qed

text \<open>The same comparison lets the legacy spelling \<^verbatim>\<open>shipped\<close> through: the customer may
  cancel an order that has shipped, and its stock is restored.\<close>

lemma cancel_of_shipped_order_restores:
  "canCancel ''shipped''
   \<and> cancelOrder True ''o1'' (demo_db ''shipped'')
       = (Some OrderCancelled,
          (demo_db ''cancelled'')\<lparr> product_variants := [demo_variant\<lparr> v_stock := 5 \<rparr>],
                                   products := [demo_product\<lparr> p_stock := 5 \<rparr>] \<rparr>)"
  by (simp add: canCancel_def cancelOrder_def demo_defs table_defs)

lemma cancelOrder_rejected:
  assumes "toLowerCase (order_status_or_empty d orderId) = ''cancelled''
           \<or> toLowerCase (order_status_or_empty d orderId) = ''delivered''
           \<or> toLowerCase (order_status_or_empty d orderId) = ''shipping''"
  shows "snd (cancelOrder ok orderId d) = d"
    and "orderId \<noteq> [] \<Longrightarrow> ok \<Longrightarrow> fst (cancelOrder ok orderId d) = Some CannotBeCancelled"
  using assms by (auto simp add: cancelOrder_def Let_def)

text \<open>
  Claim C4. The customer's \<^verbatim>\<open>cancelOrder\<close> rejects an order whose status is
  \<^verbatim>\<open>delivered\<close> or \<^verbatim>\<open>cancelled\<close> and leaves the tables as they were
  (\<open>cancelOrder_rejected\<close>). It compares with these two spellings and \<^verbatim>\<open>shipping\<close>
  only: an order whose status is the legacy \<^verbatim>\<open>completed\<close>, which the page labels as
  delivered, is offered the cancel button, is cancelled and has its stock restored; so
  is an order whose status is the legacy \<^verbatim>\<open>canceled\<close>. The administrator's cancel
  button is not locked for \<^verbatim>\<open>completed\<close> either, and changes the order's status.
\<close>

theorem cancel_of_legacy_status_not_rejected:
  "canCancel ''completed''
   \<and> cancelOrder True ''o1'' (demo_db ''completed'')
       = (Some OrderCancelled,
          (demo_db ''cancelled'')\<lparr> product_variants := [demo_variant\<lparr> v_stock := 5 \<rparr>],
                                   products := [demo_product\<lparr> p_stock := 5 \<rparr>] \<rparr>)
   \<and> cancelOrder True ''o1'' (demo_db ''canceled'')
       = (Some OrderCancelled,
          (demo_db ''cancelled'')\<lparr> product_variants := [demo_variant\<lparr> v_stock := 5 \<rparr>],
                                   products := [demo_product\<lparr> p_stock := 5 \<rparr>] \<rparr>)
   \<and> \<not> isLocked ''completed''
   \<and> updateStatus ''o1'' ''Cancelled'' (demo_db ''completed'') = (StatusUpdated, demo_db ''Cancelled'')"
  by (simp add: canCancel_def isLocked_def cancelOrder_def updateStatus_def demo_defs table_defs)

text \<open>
  Claim C1, as stated, fails: stock is also restored by an operation that is not a
  cancellation. The administrator's \<^verbatim>\<open>deleteOrder\<close> of an order in \<^verbatim>\<open>processing\<close>
  raises the variant's stock from three to five and removes the order.
\<close>

theorem delete_of_processing_order_restores_stock:
  "deleteOrder ''o1'' (demo_db ''processing'')
     = (OrderDeleted,
        (demo_db ''processing'')\<lparr> product_variants := [demo_variant\<lparr> v_stock := 5 \<rparr>],
                                  products := [demo_product\<lparr> p_stock := 5 \<rparr>],
                                  orders := [] \<rparr>)
   \<and> v_stock demo_variant = 3"
  by (simp add: deleteOrder_def demo_defs table_defs)

subsection \<open>Checkout\<close>

lemma after_deduction_frame:
  "after_deduction cart d
     = d\<lparr> product_variants := product_variants (after_deduction cart d),
          products := products (after_deduction cart d) \<rparr>"
proof -
  let ?r = "deduct_loop cart d []"
  have "after_deduction cart d = (fst ?r)\<lparr> products := products (recompute_all (snd ?r) (fst ?r)) \<rparr>"
    unfolding after_deduction_def by (rule recompute_all_frame)
  also have "fst ?r = d\<lparr> product_variants := product_variants (fst ?r) \<rparr>"
    by (rule deduct_loop_frame)
  finally have e: "after_deduction cart d
      = d\<lparr> product_variants := product_variants (fst ?r),
           products := products (recompute_all (snd ?r) (d\<lparr> product_variants := product_variants (fst ?r) \<rparr>)) \<rparr>"
    by simp
  show ?thesis by (rule frame_variants_products [OF e])
qed

lemma after_deduction_tables [simp]:
  "orders (after_deduction cart d) = orders d"
  "order_items (after_deduction cart d) = order_items d"
  "payments (after_deduction cart d) = payments d"
  by (subst after_deduction_frame, simp)+

lemma after_deduction_rows:
  assumes "variant_ids_distinct d"
  shows "product_variants (after_deduction cart d)
           = map (\<lambda>v. v\<lparr> v_stock := deducted (v_stock v) (line_quantities cart (v_id v)) \<rparr>)
               (product_variants d)"
  using deduct_loop_rows [OF assms, of cart "[]"] by (simp add: after_deduction_def)

lemma after_deduction_aggregate:
  assumes "variant_ids_distinct d" and "v \<in> set (product_variants d)"
      and "ci \<in> set cart" and "ci_product_variant_id ci = v_id v"
  shows "aggregate_ok (after_deduction cart d) (v_product_id v)"
  using recompute_all_aggregate [OF deduct_loop_pids_hit [OF assms, of "[]"]]
  by (simp add: after_deduction_def)

lemma placeOrder_aborts:
  "cl_user cl = None \<Longrightarrow> placeOrder cl opts ins d = (NoUser, d)"
  "cl_user cl = Some uid \<Longrightarrow> cl_cartItems cl = [] \<Longrightarrow> placeOrder cl opts ins d = (CartEmpty, d)"
  "cl_user cl = Some uid \<Longrightarrow> cl_cartItems cl \<noteq> [] \<Longrightarrow> check_stock d (cl_cartItems cl) = Some a
     \<Longrightarrow> placeOrder cl opts ins d = (a, d)"
  by (simp_all add: placeOrder_def)

lemma placeOrder_insert_fails:
  assumes "cl_user cl = Some uid" and "cl_cartItems cl \<noteq> []"
      and "check_stock d (cl_cartItems cl) = None"
  shows "placeOrder cl opts None d = (FailedToPlaceOrder, after_deduction (cl_cartItems cl) d)"
  using assms by (simp add: placeOrder_def after_deduction_def Let_def)

lemma placeOrder_placed:
  assumes "cl_user cl = Some uid" and "cl_cartItems cl \<noteq> []"
      and "check_stock d (cl_cartItems cl) = None"
  shows "placeOrder cl opts (Some oid) d =
    (OrderPlaced,
     (after_deduction (cl_cartItems cl) d)
       \<lparr> orders := orders d @
            [\<lparr> o_id = oid, o_user_id = uid, o_total = order_total (cl_numbers cl) (cl_cartItems cl),
               o_status = ''processing'',
               o_payment_status = payment_status_of (opt_paymentDetails opts),
               o_payment_method = opt_payment_method opts,
               o_shipping = resolve_shipping (after_deduction (cl_cartItems cl) d) opts \<rparr>],
         order_items := order_items d @ map (item_payload oid) (cl_cartItems cl),
         payments := payments d @
            [\<lparr> pay_order_id = oid, pay_amount = order_total (cl_numbers cl) (cl_cartItems cl),
               pay_method = opt_payment_method opts,
               pay_status = payment_status_of (opt_paymentDetails opts),
               pay_transaction_id = transaction_id_of (opt_paymentDetails opts) \<rparr>],
         cart_items := filter (\<lambda>c. cr_cart_id c \<noteq> cl_cartId cl)
                         (cart_items (after_deduction (cl_cartItems cl) d)) \<rparr>)"
proof -
  have "placeOrder cl opts (Some oid) d =
    (OrderPlaced,
     (after_deduction (cl_cartItems cl) d)
       \<lparr> orders := orders (after_deduction (cl_cartItems cl) d) @
            [\<lparr> o_id = oid, o_user_id = uid, o_total = order_total (cl_numbers cl) (cl_cartItems cl),
               o_status = ''processing'',
               o_payment_status = payment_status_of (opt_paymentDetails opts),
               o_payment_method = opt_payment_method opts,
               o_shipping = resolve_shipping (after_deduction (cl_cartItems cl) d) opts \<rparr>],
         order_items := order_items (after_deduction (cl_cartItems cl) d) @ map (item_payload oid) (cl_cartItems cl),
         payments := payments (after_deduction (cl_cartItems cl) d) @
            [\<lparr> pay_order_id = oid, pay_amount = order_total (cl_numbers cl) (cl_cartItems cl),
               pay_method = opt_payment_method opts,
               pay_status = payment_status_of (opt_paymentDetails opts),
               pay_transaction_id = transaction_id_of (opt_paymentDetails opts) \<rparr>],
         cart_items := filter (\<lambda>c. cr_cart_id c \<noteq> cl_cartId cl)
                         (cart_items (after_deduction (cl_cartItems cl) d)) \<rparr>)"
    using assms unfolding placeOrder_def after_deduction_def Let_def by simp
  then show ?thesis by simp
qed

lemma check_stock_None_iff:
  "check_stock d cart = None \<longleftrightarrow>
     (\<forall>ci \<in> set cart. \<exists>v. select_variant d (ci_product_variant_id ci) = Some v
                           \<and> ci_quantity ci \<le> v_stock v)"
  by (induction cart) (auto split: option.splits)

lemma check_stock_Some:
  assumes "check_stock d cart = Some a"
  shows "a = FailedToValidateStock
         \<or> (\<exists>ci \<in> set cart. deficient d ci
               \<and> a = NotEnoughStock (item_label ci) (stock_read d ci) (ci_quantity ci))"
  using assms
  by (induction cart) (auto simp: deficient_def stock_read_def split: option.splits if_splits)

lemma check_stock_found:
  assumes "check_stock d cart = Some a"
      and "\<forall>ci \<in> set cart. select_variant d (ci_product_variant_id ci) \<noteq> None"
  shows "a \<noteq> FailedToValidateStock"
  using assms
  by (induction cart) (auto split: option.splits if_splits)


lemma select_variant_map:
  assumes "\<And>v. v_id (f v) = v_id v"
      and "product_variants d' = map f (product_variants d)"
  shows "select_variant d' i = map_option f (select_variant d i)"
proof -
  have "filter (\<lambda>v. v_id v = i) (map f (product_variants d))
          = map f (filter (\<lambda>v. v_id v = i) (product_variants d))"
    by (simp add: filter_map comp_def assms(1))
  moreover have "single (map f ys) = map_option f (single ys)" for ys :: "variant list"
    by (cases ys rule: list.exhaust [case_product list.exhaust])
       (auto simp: single_def split: list.splits)
  ultimately show ?thesis by (simp add: select_variant_def assms(2))
qed

lemma line_quantities_distinct:
  assumes "distinct (map ci_product_variant_id cart)" and "ci \<in> set cart"
  shows "line_quantities cart (ci_product_variant_id ci) = [ci_quantity ci]"
proof -
  have "filter (\<lambda>c. ci_product_variant_id c = ci_product_variant_id ci) cart = [ci]"
    using assms
  proof (induction cart)
    case Nil
    then show ?case by simp
  next
    case (Cons a cart)
    show ?case
    proof (cases "a = ci")
      case True
      with Cons.prems have "\<forall>c \<in> set cart. ci_product_variant_id c \<noteq> ci_product_variant_id ci"
        by (force simp: image_iff)
      then have "filter (\<lambda>c. ci_product_variant_id c = ci_product_variant_id ci) cart = []"
        by (simp add: filter_empty_conv)
      with True show ?thesis by simp
    next
      case False
      with Cons.prems have m: "ci \<in> set cart" and n: "ci_product_variant_id a \<noteq> ci_product_variant_id ci"
        by (auto simp: image_iff)
      from Cons.IH [OF _ m] Cons.prems(1) n show ?thesis by simp
    qed
  qed
  then show ?thesis by (simp add: line_quantities_def)
qed

text \<open>
  Claim C2. Let a signed-in customer check out a cart that is not empty and passes the
  stock check: every line's variant is found and holds at least the quantity asked for.
  Then every variant's stock is its former stock lowered by the quantities of the lines
  that name it, one after the other, never below zero; when no two lines name the same
  variant, a line's variant holds \<open>max 0 (stock - quantity)\<close>; and the products table is
  the former one in which every product owning a variant named by a cart line has, as
  its aggregate stock, the sum of the stock of its variants, every other row being
  unchanged. This holds whether or not the order row is inserted afterwards. Variant
  identifiers are a primary key.
\<close>

theorem checkout_deducts_and_recomputes:
  assumes "cl_user cl \<noteq> None" and "cl_cartItems cl \<noteq> []"
      and "\<forall>ci \<in> set (cl_cartItems cl).
             \<exists>v. select_variant d (ci_product_variant_id ci) = Some v \<and> ci_quantity ci \<le> v_stock v"
      and "variant_ids_distinct d"
  shows "product_variants (snd (placeOrder cl opts ins d))
           = map (\<lambda>v. v\<lparr> v_stock := deducted (v_stock v) (line_quantities (cl_cartItems cl) (v_id v)) \<rparr>)
               (product_variants d)
       \<and> (distinct (map ci_product_variant_id (cl_cartItems cl)) \<longrightarrow>
            (\<forall>ci \<in> set (cl_cartItems cl).
               stock_read (snd (placeOrder cl opts ins d)) ci
                 = max 0 (stock_read d ci - ci_quantity ci)))
       \<and> products (snd (placeOrder cl opts ins d))
           = map (\<lambda>p. if p_id p \<in> set (owners_of d (map ci_product_variant_id (cl_cartItems cl)))
                       then p\<lparr> p_stock := summed_stock (snd (placeOrder cl opts ins d)) (p_id p) \<rparr>
                       else p)
               (products d)
       \<and> (\<forall>v \<in> set (product_variants d).
            (\<exists>ci \<in> set (cl_cartItems cl). ci_product_variant_id ci = v_id v)
            \<longrightarrow> aggregate_ok (snd (placeOrder cl opts ins d)) (v_product_id v))"
proof -
  let ?cart = "cl_cartItems cl"
  let ?d' = "snd (placeOrder cl opts ins d)"
  let ?f = "\<lambda>v. v\<lparr> v_stock := deducted (v_stock v) (line_quantities ?cart (v_id v)) \<rparr>"
  from assms(1) obtain uid where u: "cl_user cl = Some uid" by auto
  have c: "check_stock d ?cart = None"
    using assms(3) by (simp add: check_stock_None_iff)
  have pv: "product_variants ?d' = product_variants (after_deduction ?cart d)"
   and pr: "products ?d' = products (after_deduction ?cart d)"
    by (cases ins; simp add: placeOrder_insert_fails [OF u assms(2) c]
                             placeOrder_placed [OF u assms(2) c])+
  have rows: "product_variants ?d' = map ?f (product_variants d)"
    using pv after_deduction_rows [OF assms(4)] by simp
  have sel: "select_variant ?d' i = map_option ?f (select_variant d i)" for i
    by (rule select_variant_map [OF _ rows]) simp
  have one: "stock_read ?d' ci = max 0 (stock_read d ci - ci_quantity ci)"
    if "distinct (map ci_product_variant_id ?cart)" "ci \<in> set ?cart" for ci
  proof -
    from assms(3) that(2) obtain v where v: "select_variant d (ci_product_variant_id ci) = Some v"
      by blast
    have "v_id v = ci_product_variant_id ci"
      using select_variant_Some(2) [OF v] .
    then show ?thesis
      using line_quantities_distinct [OF that] by (simp add: stock_read_def sel v)
  qed
  have st: "summed_stock ?d' = summed_stock (after_deduction ?cart d)"
    by (rule summed_stock_cong [OF pv])
  have prods: "products ?d'
      = map (\<lambda>p. if p_id p \<in> set (owners_of d (map ci_product_variant_id ?cart))
                  then p\<lparr> p_stock := summed_stock ?d' (p_id p) \<rparr> else p)
          (products d)"
    unfolding st pr by (rule after_deduction_products [OF assms(4)])
  have agg: "aggregate_ok ?d' (v_product_id v)"
    if "v \<in> set (product_variants d)" "ci \<in> set ?cart" "ci_product_variant_id ci = v_id v" for v ci
    using after_deduction_aggregate [OF assms(4) that] pv pr
    by (simp add: aggregate_ok_def)
  show ?thesis using rows one prods agg by blast
qed

text \<open>Claim C2 at a cart of two pieces of a variant holding three: one is left, and the
  product's aggregate stock is one.\<close>

theorem checkout_deducts_and_recomputes_witness:
  "product_variants (snd (placeOrder (demo_client 2) cod_options (Some ''o9'') shop_db))
     = [demo_variant\<lparr> v_stock := 1 \<rparr>]
   \<and> products (snd (placeOrder (demo_client 2) cod_options (Some ''o9'') shop_db))
     = [demo_product\<lparr> p_stock := 1 \<rparr>]
   \<and> stock_read (snd (placeOrder (demo_client 2) cod_options (Some ''o9'') shop_db)) (demo_line 2) = 1
   \<and> aggregate_ok (snd (placeOrder (demo_client 2) cod_options (Some ''o9'') shop_db)) ''p1''"
proof -
  have u: "cl_user (demo_client 2) \<noteq> None" and c: "cl_cartItems (demo_client 2) \<noteq> []"
    by (simp_all add: demo_client_def)
  have s: "\<forall>ci \<in> set (cl_cartItems (demo_client 2)).
             \<exists>v. select_variant shop_db (ci_product_variant_id ci) = Some v \<and> ci_quantity ci \<le> v_stock v"
    by (simp add: demo_defs select_variant_def single_def)
  have k: "variant_ids_distinct shop_db"
    by (simp add: demo_defs variant_ids_distinct_def)
  have e: "product_variants shop_db = [demo_variant]" "cl_cartItems (demo_client 2) = [demo_line 2]"
          "products shop_db = [demo_product]"
          "line_quantities [demo_line 2] (v_id demo_variant) = [2]" "v_stock demo_variant = 3"
          "ci_product_variant_id (demo_line 2) = v_id demo_variant" "v_product_id demo_variant = ''p1''"
          "stock_read shop_db (demo_line 2) = 3" "ci_quantity (demo_line 2) = 2"
          "p_id demo_product = ''p1''" "owners_of shop_db [v_id demo_variant] = [''p1'']"
    by (simp_all add: demo_defs line_quantities_def stock_read_def select_variant_def single_def
          owners_of_def)
  from checkout_deducts_and_recomputes [OF u c s k, of cod_options "Some ''o9''"]
  show ?thesis by (simp add: e summed_stock_def)
qed





subsection \<open>What a successful checkout records\<close>

lemma placeOrder_OrderPlaced:
  assumes "placeOrder cl opts ins d = (OrderPlaced, d')"
  obtains uid oid where "cl_user cl = Some uid" and "cl_cartItems cl \<noteq> []"
    and "check_stock d (cl_cartItems cl) = None" and "ins = Some oid"
proof (cases "cl_user cl")
  case None
  with assms show ?thesis by (simp add: placeOrder_aborts)
next
  case (Some uid)
  show ?thesis
  proof (cases "cl_cartItems cl = []")
    case True
    with assms Some show ?thesis by (simp add: placeOrder_aborts)
  next
    case False
    show ?thesis
    proof (cases "check_stock d (cl_cartItems cl)")
      case (Some a)
      from check_stock_Some [OF Some] have "a \<noteq> OrderPlaced" by auto
      with assms placeOrder_aborts(3) [OF \<open>cl_user cl = Some uid\<close> False Some]
      show ?thesis by simp
    next
      case None
      show ?thesis
      proof (cases ins)
        case n: None
        with assms placeOrder_insert_fails [OF \<open>cl_user cl = Some uid\<close> False None]
        show ?thesis by simp
      next
        case (Some oid)
        with that \<open>cl_user cl = Some uid\<close> False None show ?thesis by blast
      qed
    qed
  qed
qed

lemma foldl_add_sum_rat:
  fixes a :: rat
  shows "foldl (\<lambda>s x. s + f x) a xs = a + sum_list (map f xs)"
  by (induction xs arbitrary: a) simp_all

lemma order_total_written_out:
  assumes "\<forall>ci \<in> set cart. 1 \<le> ci_quantity ci"
  shows "order_total ar cart
           = foldl (\<lambda>s ci. num_add ar s
                       (num_mul ar (case ci_products ci of None \<Rightarrow> 0 | Some p \<Rightarrow> p_price p)
                          (of_int (ci_quantity ci))))
               0 cart"
  unfolding order_total_def
proof (rule foldl_cong [OF refl refl])
  fix s ci assume "ci \<in> set cart"
  with assms have "num_or (ci_quantity ci) 1 = ci_quantity ci"
    by (auto simp: num_or_def)
  then show "num_add ar s (num_mul ar (line_price ci) (of_int (num_or (ci_quantity ci) 1)))
             = num_add ar s
                 (num_mul ar (case ci_products ci of None \<Rightarrow> 0 | Some p \<Rightarrow> p_price p)
                    (of_int (ci_quantity ci)))"
    by (simp add: line_price_def)
qed

text \<open>
  Claim C6, as stated, fails: the total is not computed from the product's current
  price. The checkout takes the price from the product row joined to the cart line when
  the cart was loaded and never reads the products table. After the price in the table
  has been raised to 12, a cart loaded before, with two pieces at the price 10, is
  charged 20, not 24.
\<close>

theorem checkout_total_uses_loaded_price:
  "map o_total (orders (snd (placeOrder (demo_client 2) cod_options (Some ''o9'') repriced_db))) = [20]
   \<and> map p_price (products repriced_db) = [12]
   \<and> map ci_quantity (cl_cartItems (demo_client 2)) = [2]
   \<and> (20::rat) \<noteq> 12 * 2"
  by (simp add: placeOrder_def demo_defs table_defs Let_def repriced_db_def exact_numbers_def
        order_total_def line_price_def)

text \<open>
  Claim C6, amended. A checkout that ends with the message that the order is placed, on a
  cart whose quantities are at least one, appends exactly one order and exactly one
  payment row. The order's total is obtained by adding up from zero, in the cart's order
  and in the runtime's arithmetic, the product of the line's price and the line's
  quantity, where the line's price is the price of the product row joined to the cart
  line in the page's state, and zero when no product is joined; when that arithmetic
  does not round, the total is the sum of these products. The order's status is
  \<^verbatim>\<open>processing\<close>, and its payment status is \<^verbatim>\<open>paid\<close> when a payment confirmation
  with status \<^verbatim>\<open>succeeded\<close> is supplied and \<^verbatim>\<open>pending\<close> otherwise. The payment row
  refers to the order, carries the total as its amount and the order's payment status as
  its status, and its transaction identifier is the confirmation's identifier when a
  confirmation with an identifier is supplied, and null otherwise.
\<close>

theorem successful_checkout_records:
  assumes "placeOrder cl opts ins d = (OrderPlaced, d')"
      and "\<forall>ci \<in> set (cl_cartItems cl). 1 \<le> ci_quantity ci"
  shows "\<exists>ord pay.
           orders d' = orders d @ [ord] \<and> payments d' = payments d @ [pay]
           \<and> o_total ord
               = foldl (\<lambda>s ci. num_add (cl_numbers cl) s
                           (num_mul (cl_numbers cl)
                              (case ci_products ci of None \<Rightarrow> 0 | Some p \<Rightarrow> p_price p)
                              (of_int (ci_quantity ci))))
                   0 (cl_cartItems cl)
           \<and> (num_add (cl_numbers cl) = (+) \<and> num_mul (cl_numbers cl) = (*) \<longrightarrow>
                o_total ord
                  = sum_list (map (\<lambda>ci. (case ci_products ci of None \<Rightarrow> 0 | Some p \<Rightarrow> p_price p)
                                          * of_int (ci_quantity ci)) (cl_cartItems cl)))
           \<and> o_status ord = ''processing''
           \<and> o_payment_status ord
               = (if \<exists>x. opt_paymentDetails opts = Some x \<and> pd_status x = ''succeeded''
                  then ''paid'' else ''pending'')
           \<and> pay_amount pay = o_total ord
           \<and> pay_status pay = o_payment_status ord
           \<and> pay_order_id pay = o_id ord
           \<and> pay_transaction_id pay
               = (case opt_paymentDetails opts of
                    None \<Rightarrow> None
                  | Some x \<Rightarrow> if pd_id x = [] then None else Some (pd_id x))"
proof -
  from assms(1) obtain uid oid where u: "cl_user cl = Some uid" and c: "cl_cartItems cl \<noteq> []"
    and k: "check_stock d (cl_cartItems cl) = None" and i: "ins = Some oid"
    by (rule placeOrder_OrderPlaced)
  let ?total = "order_total (cl_numbers cl) (cl_cartItems cl)"
  let ?price = "\<lambda>ci. case ci_products ci of None \<Rightarrow> 0 | Some p \<Rightarrow> p_price p"
  let ?ord = "\<lparr> o_id = oid, o_user_id = uid, o_total = ?total,
               o_status = ''processing'',
               o_payment_status = payment_status_of (opt_paymentDetails opts),
               o_payment_method = opt_payment_method opts,
               o_shipping = resolve_shipping (after_deduction (cl_cartItems cl) d) opts \<rparr>"
  let ?pay = "\<lparr> pay_order_id = oid, pay_amount = ?total,
               pay_method = opt_payment_method opts,
               pay_status = payment_status_of (opt_paymentDetails opts),
               pay_transaction_id = transaction_id_of (opt_paymentDetails opts) \<rparr>"
  from assms(1) have d': "d' = snd (placeOrder cl opts (Some oid) d)"
    by (simp add: i)
  have o: "orders d' = orders d @ [?ord]" and p: "payments d' = payments d @ [?pay]"
    unfolding d' placeOrder_placed [OF u c k] by simp_all
  have s: "payment_status_of (opt_paymentDetails opts)
             = (if \<exists>x. opt_paymentDetails opts = Some x \<and> pd_status x = ''succeeded''
                then ''paid'' else ''pending'')"
    by (cases "opt_paymentDetails opts") (simp_all add: payment_status_of_def)
  have t: "?total = foldl (\<lambda>s ci. num_add (cl_numbers cl) s
                             (num_mul (cl_numbers cl) (?price ci) (of_int (ci_quantity ci))))
                      0 (cl_cartItems cl)"
    by (rule order_total_written_out [OF assms(2)])
  have e: "?total = sum_list (map (\<lambda>ci. ?price ci * of_int (ci_quantity ci)) (cl_cartItems cl))"
    if "num_add (cl_numbers cl) = (+)" "num_mul (cl_numbers cl) = (*)"
    unfolding t that by (simp add: foldl_add_sum_rat)
  have "o_total ?ord = foldl (\<lambda>s ci. num_add (cl_numbers cl) s
                             (num_mul (cl_numbers cl) (?price ci) (of_int (ci_quantity ci))))
                      0 (cl_cartItems cl)"
       "num_add (cl_numbers cl) = (+) \<and> num_mul (cl_numbers cl) = (*) \<longrightarrow>
          o_total ?ord = sum_list (map (\<lambda>ci. ?price ci * of_int (ci_quantity ci)) (cl_cartItems cl))"
       "o_status ?ord = ''processing''"
       "o_payment_status ?ord = (if \<exists>x. opt_paymentDetails opts = Some x \<and> pd_status x = ''succeeded''
                  then ''paid'' else ''pending'')"
       "pay_amount ?pay = o_total ?ord" "pay_status ?pay = o_payment_status ?ord"
       "pay_order_id ?pay = o_id ?ord"
       "pay_transaction_id ?pay = (case opt_paymentDetails opts of
                    None \<Rightarrow> None
                  | Some x \<Rightarrow> if pd_id x = [] then None else Some (pd_id x))"
    using s t e by (simp_all add: transaction_id_of_def)
  with o p show ?thesis by blast
qed

text \<open>The amended claim C6 at a cart of two pieces at the price 10, paid by card.\<close>

theorem successful_checkout_records_witness:
  "\<exists>ord pay.
     orders (snd (placeOrder (demo_client 2) card_options (Some ''o9'') shop_db)) = [ord]
     \<and> payments (snd (placeOrder (demo_client 2) card_options (Some ''o9'') shop_db)) = [pay]
     \<and> o_total ord = 20 \<and> o_status ord = ''processing'' \<and> o_payment_status ord = ''paid''
     \<and> pay_amount pay = 20 \<and> pay_status pay = ''paid'' \<and> pay_order_id pay = o_id ord
     \<and> pay_transaction_id pay = Some ''pi_1''"
proof -
  let ?r = "placeOrder (demo_client 2) card_options (Some ''o9'') shop_db"
  have f: "fst ?r = OrderPlaced"
    by (simp add: placeOrder_def demo_defs table_defs Let_def)
  then have h: "?r = (OrderPlaced, snd ?r)"
    by (simp add: prod_eq_iff)
  have q: "\<forall>ci \<in> set (cl_cartItems (demo_client 2)). 1 \<le> ci_quantity ci"
    by (simp add: demo_defs)
  have e: "orders shop_db = []" "payments shop_db = []"
          "cl_cartItems (demo_client 2) = [demo_line 2]"
          "num_add (cl_numbers (demo_client 2)) = (+)" "num_mul (cl_numbers (demo_client 2)) = (*)"
          "ci_products (demo_line 2) = Some demo_product" "p_price demo_product = 10"
          "ci_quantity (demo_line 2) = 2"
          "opt_paymentDetails card_options = Some \<lparr> pd_id = ''pi_1'', pd_status = ''succeeded'' \<rparr>"
    by (simp_all add: demo_defs card_options_def exact_numbers_def)
  from successful_checkout_records [OF h q] show ?thesis
    by (auto simp add: e)
qed

subsection \<open>Order items are only ever appended\<close>

lemma save_variants_order_items:
  "order_items (es_db (snd (save_variants upload productId vfs s))) = order_items (es_db s)"
proof (induction vfs arbitrary: s)
  case Nil
  then show ?case by simp
next
  case (Cons vf vfs)
  show ?case
    by (simp add: Cons.IH Let_def split: option.splits)
qed

lemma handleEditSave_order_items:
  "order_items (snd (handleEditSave upload fresh form d)) = order_items d"
proof -
  have "order_items (es_db (snd (save_variants upload (p_id (pf_row form)) (pf_variants form)
           \<lparr> es_db = d, es_variantsToInsert = [], es_existingVariantIds = [], es_urls = [] \<rparr>)))
          = order_items d"
    by (simp add: save_variants_order_items)
  then show ?thesis
    by (simp add: handleEditSave_def Let_def recompute_product_def split: option.splits)
qed

lemma cancelOrder_order_items:
  "order_items (snd (cancelOrder ok orderId d)) = order_items d"
  by (simp add: cancelOrder_def Let_def)

lemma updateStatus_order_items:
  "order_items (snd (updateStatus orderId newStatus d)) = order_items d"
  by (simp add: updateStatus_def Let_def split: option.splits)

lemma deleteOrder_order_items:
  "order_items (snd (deleteOrder orderId d)) = order_items d"
  by (simp add: deleteOrder_def Let_def)

lemma placeOrder_order_items:
  "take (length (order_items d)) (order_items (snd (placeOrder cl opts ins d))) = order_items d"
proof (cases "cl_user cl")
  case None
  then show ?thesis by (simp add: placeOrder_aborts)
next
  case (Some uid)
  show ?thesis
  proof (cases "cl_cartItems cl = []")
    case True
    with Some show ?thesis by (simp add: placeOrder_aborts)
  next
    case False
    show ?thesis
    proof (cases "check_stock d (cl_cartItems cl)")
      case (Some a)
      with \<open>cl_user cl = Some uid\<close> False show ?thesis by (simp add: placeOrder_aborts)
    next
      case None
      show ?thesis
        by (cases ins)
           (simp_all add: placeOrder_insert_fails [OF \<open>cl_user cl = Some uid\<close> False None]
                          placeOrder_placed [OF \<open>cl_user cl = Some uid\<close> False None])
    qed
  qed
qed

text \<open>
  Claim C7. No operation changes or removes a row of \<^verbatim>\<open>order_items\<close>: the
  administrator's product edit and product deletion, the customer's cancellation and the
  administrator's status update and order deletion leave the table as it was, and a
  checkout only appends rows after the existing ones. The rows, and with them the name,
  price, colour, size and image they hold, are those written when the order was placed.
\<close>

theorem order_items_never_rewritten:
  "order_items (snd (handleEditSave upload fresh form d)) = order_items d
   \<and> order_items (handleDeleteProduct confirmed productId d) = order_items d
   \<and> order_items (snd (cancelOrder ok orderId d)) = order_items d
   \<and> order_items (snd (updateStatus orderId newStatus d)) = order_items d
   \<and> order_items (snd (deleteOrder orderId d)) = order_items d
   \<and> take (length (order_items d)) (order_items (snd (placeOrder cl opts ins d))) = order_items d"
  by (simp add: handleEditSave_order_items cancelOrder_order_items updateStatus_order_items
                deleteOrder_order_items placeOrder_order_items handleDeleteProduct_def)

text \<open>Claim C7 at an order with one item: after the product's price and the variant's
  stock are edited, after the product is deleted, and after a further checkout, the
  item is the first row of the table, unchanged.\<close>

theorem order_items_never_rewritten_witness:
  "order_items (snd (handleEditSave (\<lambda>f. Some f) (\<lambda>k. ''v2'')
       \<lparr> pf_row = demo_product\<lparr> p_price := 12 \<rparr>,
         pf_variants = [\<lparr> vf_row = demo_variant\<lparr> v_stock := 7 \<rparr>, vf_imgFile = None \<rparr>] \<rparr>
       (demo_db ''processing''))) = [demo_order_item]
   \<and> order_items (handleDeleteProduct True ''p1'' (demo_db ''processing'')) = [demo_order_item]
   \<and> take 1 (order_items (snd (placeOrder (demo_client 2) cod_options (Some ''o9'')
                                 (demo_db ''processing'')))) = [demo_order_item]"
proof -
  have e: "order_items (demo_db ''processing'') = [demo_order_item]"
    by (simp add: demo_db_def)
  from order_items_never_rewritten
         [where d = "demo_db ''processing''" and upload = "\<lambda>f. Some f" and fresh = "\<lambda>k. ''v2''"
            and form = "\<lparr> pf_row = demo_product\<lparr> p_price := 12 \<rparr>,
                          pf_variants = [\<lparr> vf_row = demo_variant\<lparr> v_stock := 7 \<rparr>, vf_imgFile = None \<rparr>] \<rparr>"
            and confirmed = True and productId = "''p1''" and cl = "demo_client 2"
            and opts = cod_options and ins = "Some ''o9''"]
  show ?thesis by (simp add: e)
qed

subsection \<open>Which operations move stock\<close>

lemma stock_not_lower_refl: "stock_not_lower d d"
  by (simp add: stock_not_lower_def list_all2_same)

lemma restored_qty_nonneg:
  assumes "\<forall>it \<in> set its. 0 \<le> oi_quantity it"
  shows "0 \<le> restored_qty g its i"
  unfolding restored_qty_def using assms by (intro sum_list_nonneg) auto

lemma restore_stock_not_lower:
  assumes "variant_ids_distinct d" and "\<forall>it \<in> set (order_items d). 0 \<le> oi_quantity it"
  shows "stock_not_lower d (restore_stock g orderId d)"
proof -
  have "\<forall>it \<in> set (items_of d orderId). 0 \<le> oi_quantity it"
    using assms(2) by (simp add: items_of_def)
  then have "0 \<le> restored_qty g (items_of d orderId) i" for i
    by (rule restored_qty_nonneg)
  then show ?thesis
    by (simp add: stock_not_lower_def restore_stock_rows [OF assms(1)] list_all2_map2 list_all2_same)
qed

lemma deducted_le:
  assumes "0 \<le> s" and "\<forall>q \<in> set qs. 0 \<le> q"
  shows "deducted s qs \<le> s"
  using assms
proof (induction qs arbitrary: s)
  case Nil
  then show ?case by simp
next
  case (Cons q qs)
  have "deducted (max 0 (s - q)) qs \<le> max 0 (s - q)"
    using Cons.prems by (intro Cons.IH) simp_all
  also have "\<dots> \<le> s" using Cons.prems by simp
  finally show ?case by simp
qed

lemma after_deduction_not_higher:
  assumes "variant_ids_distinct d"
      and "\<forall>ci \<in> set cart. 0 \<le> ci_quantity ci"
      and "\<forall>v \<in> set (product_variants d). 0 \<le> v_stock v"
  shows "stock_not_lower (after_deduction cart d) d"
proof -
  have "deducted (v_stock v) (line_quantities cart (v_id v)) \<le> v_stock v"
    if "v \<in> set (product_variants d)" for v
  proof (rule deducted_le)
    show "0 \<le> v_stock v" using assms(3) that by simp
    show "\<forall>q \<in> set (line_quantities cart (v_id v)). 0 \<le> q"
      using assms(2) by (auto simp: line_quantities_def)
  qed
  then show ?thesis
    by (simp add: stock_not_lower_def after_deduction_rows [OF assms(1)] list_all2_map1 list_all2_same)
qed

lemma placeOrder_not_higher:
  assumes "variant_ids_distinct d"
      and "\<forall>ci \<in> set (cl_cartItems cl). 0 \<le> ci_quantity ci"
      and "\<forall>v \<in> set (product_variants d). 0 \<le> v_stock v"
  shows "stock_not_lower (snd (placeOrder cl opts ins d)) d"
proof (cases "cl_user cl")
  case None
  then show ?thesis by (simp add: placeOrder_aborts stock_not_lower_refl)
next
  case (Some uid)
  show ?thesis
  proof (cases "cl_cartItems cl = []")
    case True
    with Some show ?thesis by (simp add: placeOrder_aborts stock_not_lower_refl)
  next
    case False
    show ?thesis
    proof (cases "check_stock d (cl_cartItems cl)")
      case (Some a)
      with \<open>cl_user cl = Some uid\<close> False show ?thesis
        by (simp add: placeOrder_aborts stock_not_lower_refl)
    next
      case None
      have "product_variants (snd (placeOrder cl opts ins d))
              = product_variants (after_deduction (cl_cartItems cl) d)"
        by (cases ins)
           (simp_all add: placeOrder_insert_fails [OF \<open>cl_user cl = Some uid\<close> False None]
                          placeOrder_placed [OF \<open>cl_user cl = Some uid\<close> False None])
      then show ?thesis
        using after_deduction_not_higher [OF assms] by (simp add: stock_not_lower_def)
    qed
  qed
qed

lemma cancelOrder_not_lower:
  assumes "variant_ids_distinct d" and "\<forall>it \<in> set (order_items d). 0 \<le> oi_quantity it"
  shows "stock_not_lower d (snd (cancelOrder ok orderId d))"
proof -
  let ?d1 = "update_order_status orderId ''cancelled'' d"
  have "stock_not_lower ?d1 (restore_stock True orderId ?d1)"
    using assms by (intro restore_stock_not_lower) simp_all
  then have "stock_not_lower d (restore_stock True orderId ?d1)"
    by (simp add: stock_not_lower_def)
  then show ?thesis
    by (simp add: cancelOrder_def Let_def stock_not_lower_refl)
qed

lemma updateStatus_not_lower:
  assumes "variant_ids_distinct d" and "\<forall>it \<in> set (order_items d). 0 \<le> oi_quantity it"
  shows "stock_not_lower d (snd (updateStatus orderId newStatus d))"
proof -
  let ?d1 = "update_order_status orderId newStatus d"
  have "stock_not_lower ?d1 (restore_stock False orderId ?d1)"
    using assms by (intro restore_stock_not_lower) simp_all
  then have r: "stock_not_lower d (restore_stock False orderId ?d1)"
    by (simp add: stock_not_lower_def)
  have u: "stock_not_lower d ?d1"
    by (simp add: stock_not_lower_def list_all2_same)
  show ?thesis
    using r u by (simp add: updateStatus_def Let_def stock_not_lower_refl split: option.splits)
qed

lemma deleteOrder_not_lower:
  assumes "variant_ids_distinct d" and "\<forall>it \<in> set (order_items d). 0 \<le> oi_quantity it"
  shows "stock_not_lower d (snd (deleteOrder orderId d))"
proof -
  have r: "stock_not_lower d (restore_stock False orderId d)"
    by (rule restore_stock_not_lower [OF assms])
  have "stock_not_lower d (x\<lparr> orders := y \<rparr>) = stock_not_lower d x" for x y
    by (simp add: stock_not_lower_def)
  then show ?thesis
    using r by (simp add: deleteOrder_def Let_def stock_not_lower_refl)
qed

lemma cancelOrder_early:
  assumes "ok" and "orderId \<noteq> []" and "variant_ids_distinct d"
      and "toLowerCase (order_status_or_empty d orderId) = ''pending''
           \<or> toLowerCase (order_status_or_empty d orderId) = ''processing''"
  shows "product_variants (snd (cancelOrder ok orderId d))
           = map (\<lambda>v. v\<lparr> v_stock := v_stock v + restored_qty True (items_of d orderId) (v_id v) \<rparr>)
               (product_variants d)"
proof -
  let ?d1 = "update_order_status orderId ''cancelled'' d"
  have d1: "variant_ids_distinct ?d1" using assms(3) by simp
  have "snd (cancelOrder ok orderId d) = restore_stock True orderId ?d1"
    using assms(1,2,4) by (auto simp add: cancelOrder_def Let_def)
  then show ?thesis
    using restore_stock_rows [OF d1, of True orderId] by simp
qed

lemma updateStatus_frame:
  assumes "\<not> (toLowerCase newStatus = ''cancelled''
              \<and> (toLowerCase (order_status_or_empty d orderId) = ''pending''
                 \<or> toLowerCase (order_status_or_empty d orderId) = ''processing''))"
  shows "product_variants (snd (updateStatus orderId newStatus d)) = product_variants d"
    and "products (snd (updateStatus orderId newStatus d)) = products d"
  using assms
  by (auto simp add: updateStatus_def Let_def order_status_or_empty_def split: option.splits)

lemma deleteOrder_frame:
  assumes "toLowerCase (order_status_or_empty d orderId) \<noteq> ''pending''"
      and "toLowerCase (order_status_or_empty d orderId) \<noteq> ''processing''"
  shows "product_variants (snd (deleteOrder orderId d)) = product_variants d"
    and "products (snd (deleteOrder orderId d)) = products d"
  using assms by (simp_all add: deleteOrder_def Let_def)

lemma order_status_found:
  assumes "toLowerCase (order_status_or_empty d orderId) = ''pending''
           \<or> toLowerCase (order_status_or_empty d orderId) = ''processing''"
  obtains ord where "select_order d orderId = Some ord"
    and "o_status ord = order_status_or_empty d orderId"
proof (cases "select_order d orderId")
  case None
  with assms show ?thesis
    by (simp add: order_status_or_empty_def toLowerCase_def)
next
  case (Some ord)
  with that show ?thesis by (simp add: order_status_or_empty_def)
qed

lemma updateStatus_early:
  assumes "variant_ids_distinct d" and "toLowerCase newStatus = ''cancelled''"
      and "toLowerCase (order_status_or_empty d orderId) = ''pending''
           \<or> toLowerCase (order_status_or_empty d orderId) = ''processing''"
  shows "product_variants (snd (updateStatus orderId newStatus d))
           = map (\<lambda>v. v\<lparr> v_stock := v_stock v + restored_qty False (items_of d orderId) (v_id v) \<rparr>)
               (product_variants d)"
proof -
  from assms(3) obtain ord where s: "select_order d orderId = Some ord"
    and o: "o_status ord = order_status_or_empty d orderId"
    by (rule order_status_found)
  let ?d1 = "update_order_status orderId newStatus d"
  have d1: "variant_ids_distinct ?d1" using assms(1) by simp
  have "snd (updateStatus orderId newStatus d) = restore_stock False orderId ?d1"
    using assms(2,3) by (simp add: updateStatus_found [OF s] o)
  then show ?thesis
    using restore_stock_rows [OF d1, of False orderId] by simp
qed

lemma deleteOrder_early:
  assumes "variant_ids_distinct d"
      and "toLowerCase (order_status_or_empty d orderId) = ''pending''
           \<or> toLowerCase (order_status_or_empty d orderId) = ''processing''"
  shows "product_variants (snd (deleteOrder orderId d))
           = map (\<lambda>v. v\<lparr> v_stock := v_stock v + restored_qty False (items_of d orderId) (v_id v) \<rparr>)
               (product_variants d)"
proof -
  from assms(2) obtain ord where s: "select_order d orderId = Some ord"
    by (rule order_status_found)
  have "product_variants (snd (deleteOrder orderId d))
          = product_variants (restore_stock False orderId d)"
    using assms(2) s by (auto simp add: deleteOrder_def Let_def)
  then show ?thesis
    using restore_stock_rows [OF assms(1), of False orderId] by simp
qed

text \<open>
  Claim C1, amended. With variant identifiers a primary key and stock and quantities
  not negative: a checkout never raises a variant's stock, and the customer's
  cancellation, the administrator's status update and the administrator's order deletion
  never lower one. Stock is restored, every variant getting the quantities of the order's
  items back, by the customer's cancellation of an order in \<^verbatim>\<open>pending\<close> or
  \<^verbatim>\<open>processing\<close>, by the administrator's status update to \<^verbatim>\<open>cancelled\<close> of such an
  order, and by the administrator's deletion of such an order. The customer's
  cancellation of an order in \<^verbatim>\<open>shipping\<close>, \<^verbatim>\<open>delivered\<close> or \<^verbatim>\<open>cancelled\<close> changes
  nothing; the administrator's status update changes no variant and no product unless
  the target is \<^verbatim>\<open>cancelled\<close> and the previous status \<^verbatim>\<open>pending\<close> or
  \<^verbatim>\<open>processing\<close>; and the administrator's deletion changes none unless the order's
  status is \<^verbatim>\<open>pending\<close> or \<^verbatim>\<open>processing\<close>.
\<close>

theorem stock_moves_by_operation:
  assumes "variant_ids_distinct d"
      and "\<forall>it \<in> set (order_items d). 0 \<le> oi_quantity it"
      and "\<forall>ci \<in> set (cl_cartItems cl). 0 \<le> ci_quantity ci"
      and "\<forall>v \<in> set (product_variants d). 0 \<le> v_stock v"
  shows "stock_not_lower (snd (placeOrder cl opts ins d)) d
       \<and> stock_not_lower d (snd (cancelOrder ok orderId d))
       \<and> stock_not_lower d (snd (updateStatus orderId newStatus d))
       \<and> stock_not_lower d (snd (deleteOrder orderId d))
       \<and> (toLowerCase (order_status_or_empty d orderId) = ''shipping''
            \<or> toLowerCase (order_status_or_empty d orderId) = ''delivered''
            \<or> toLowerCase (order_status_or_empty d orderId) = ''cancelled''
          \<longrightarrow> snd (cancelOrder ok orderId d) = d)
       \<and> (ok \<and> orderId \<noteq> []
            \<and> (toLowerCase (order_status_or_empty d orderId) = ''pending''
               \<or> toLowerCase (order_status_or_empty d orderId) = ''processing'')
          \<longrightarrow> product_variants (snd (cancelOrder ok orderId d))
                = map (\<lambda>v. v\<lparr> v_stock := v_stock v + restored_qty True (items_of d orderId) (v_id v) \<rparr>)
                    (product_variants d))
       \<and> (toLowerCase newStatus = ''cancelled''
            \<and> (toLowerCase (order_status_or_empty d orderId) = ''pending''
               \<or> toLowerCase (order_status_or_empty d orderId) = ''processing'')
          \<longrightarrow> product_variants (snd (updateStatus orderId newStatus d))
                = map (\<lambda>v. v\<lparr> v_stock := v_stock v + restored_qty False (items_of d orderId) (v_id v) \<rparr>)
                    (product_variants d))
       \<and> (toLowerCase (order_status_or_empty d orderId) = ''pending''
            \<or> toLowerCase (order_status_or_empty d orderId) = ''processing''
          \<longrightarrow> product_variants (snd (deleteOrder orderId d))
                = map (\<lambda>v. v\<lparr> v_stock := v_stock v + restored_qty False (items_of d orderId) (v_id v) \<rparr>)
                    (product_variants d))
       \<and> (\<not> (toLowerCase newStatus = ''cancelled''
               \<and> (toLowerCase (order_status_or_empty d orderId) = ''pending''
                  \<or> toLowerCase (order_status_or_empty d orderId) = ''processing''))
          \<longrightarrow> product_variants (snd (updateStatus orderId newStatus d)) = product_variants d
              \<and> products (snd (updateStatus orderId newStatus d)) = products d)
       \<and> (toLowerCase (order_status_or_empty d orderId) \<noteq> ''pending''
            \<and> toLowerCase (order_status_or_empty d orderId) \<noteq> ''processing''
          \<longrightarrow> product_variants (snd (deleteOrder orderId d)) = product_variants d
              \<and> products (snd (deleteOrder orderId d)) = products d)"
  using placeOrder_not_higher [OF assms(1,3,4), of opts ins]
        cancelOrder_not_lower [OF assms(1,2), of ok orderId]
        updateStatus_not_lower [OF assms(1,2), of orderId newStatus]
        deleteOrder_not_lower [OF assms(1,2), of orderId]
        cancelOrder_rejected(1) [of d orderId ok]
        cancelOrder_early [OF _ _ assms(1), of ok orderId]
        updateStatus_early [OF assms(1), of newStatus orderId]
        deleteOrder_early [OF assms(1), of orderId]
        updateStatus_frame [of newStatus d orderId]
        deleteOrder_frame [of d orderId]
  by blast

text \<open>The amended claim C1 at an order in \<^verbatim>\<open>shipping\<close> and at one in
  \<^verbatim>\<open>processing\<close>.\<close>

theorem stock_moves_by_operation_witness:
  "snd (cancelOrder True ''o1'' (demo_db ''shipping'')) = demo_db ''shipping''
   \<and> product_variants (snd (updateStatus ''o1'' ''Cancelled'' (demo_db ''shipping''))) = [demo_variant]
   \<and> product_variants (snd (deleteOrder ''o1'' (demo_db ''shipping''))) = [demo_variant]
   \<and> stock_not_lower (snd (placeOrder (demo_client 2) cod_options (Some ''o9'') (demo_db ''shipping'')))
        (demo_db ''shipping'')
   \<and> product_variants (snd (cancelOrder True ''o1'' (demo_db ''processing'')))
        = [demo_variant\<lparr> v_stock := 5 \<rparr>]
   \<and> product_variants (snd (updateStatus ''o1'' ''Cancelled'' (demo_db ''processing'')))
        = [demo_variant\<lparr> v_stock := 5 \<rparr>]
   \<and> product_variants (snd (deleteOrder ''o1'' (demo_db ''processing'')))
        = [demo_variant\<lparr> v_stock := 5 \<rparr>]"
proof -
  have k: "variant_ids_distinct (demo_db st)" for st
    by (simp add: demo_defs variant_ids_distinct_def)
  have i: "\<forall>it \<in> set (order_items (demo_db st)). 0 \<le> oi_quantity it" for st
    by (simp add: demo_defs)
  have c: "\<forall>ci \<in> set (cl_cartItems (demo_client 2)). 0 \<le> ci_quantity ci"
    by (simp add: demo_defs)
  have v: "\<forall>v \<in> set (product_variants (demo_db st)). 0 \<le> v_stock v" for st
    by (simp add: demo_defs)
  have s: "toLowerCase (order_status_or_empty (demo_db ''shipping'') ''o1'') = ''shipping''"
          "toLowerCase (order_status_or_empty (demo_db ''processing'') ''o1'') = ''processing''"
          "toLowerCase ''Cancelled'' = ''cancelled''"
    by (simp_all add: demo_defs table_defs)
  have e: "product_variants (demo_db st) = [demo_variant]"
          "items_of (demo_db st) ''o1'' = [demo_order_item]" for st
    by (simp_all add: demo_db_def items_of_def demo_order_item_def)
  have q: "restored_qty g [demo_order_item] (v_id demo_variant) = 2" "v_stock demo_variant = 3" for g
    by (simp_all add: restored_qty_def demo_order_item_def demo_variant_def)
  from stock_moves_by_operation
         [OF k [of "''shipping''"] i [of "''shipping''"] c v [of "''shipping''"],
          where opts = cod_options and ins = "Some ''o9''" and ok = True
            and orderId = "''o1''" and newStatus = "''Cancelled''"]
       stock_moves_by_operation
         [OF k [of "''processing''"] i [of "''processing''"] c v [of "''processing''"],
          where opts = cod_options and ins = "Some ''o9''" and ok = True
            and orderId = "''o1''" and newStatus = "''Cancelled''"]
  show ?thesis
    by (simp add: s e q)
qed

end
